theory Spec2Isabelle
  imports Main "HOL-Library.Sublist"
begin

section \<open>Package errc: PlentifulError\<close>

text \<open>
  \<^verbatim>\<open>type PlentifulError struct { Reason string; Cause string; Details map[string]string }\<close>

  A Go map value is either nil or a finite table; reading a nil map is allowed, assigning
  to it panics. \<open>Details\<close> is therefore an optional table, \<open>None\<close> being the nil map.
  Errors are handled through pointers (\<^verbatim>\<open>*PlentifulError\<close>), so the structs live in an
  explicit store: an address is an index into the list of allocated structs, and an
  address outside the store stands for the nil pointer.
\<close>

record PlentifulError =
  Reason :: string
  Cause :: string
  Details :: "(string \<rightharpoonup> string) option"

type_synonym addr = nat

type_synonym store = "PlentifulError list"

text \<open>
  A value of Go's interface type \<^verbatim>\<open>error\<close> is either a pointer to a PlentifulError or an
  error of some other dynamic type, of which only the text of its \<^verbatim>\<open>Error()\<close> method is
  observable here. The nil interface is \<open>None\<close> of \<open>error option\<close>.
\<close>

datatype error = Plentiful addr | Foreign string

datatype panic = NilDereference | NilMapAssignment | AssertionFailed string

definition deref :: "store \<Rightarrow> addr \<Rightarrow> panic + PlentifulError" where
  "deref h a = (if a < length h then Inr (h ! a) else Inl NilDereference)"

text \<open>\<^verbatim>\<open>func (e *PlentifulError) Error() string { return e.Reason + "\n" + e.Cause }\<close>\<close>

definition PlentifulError_Error :: "store \<Rightarrow> addr \<Rightarrow> panic + string" where
  "PlentifulError_Error h e =
     (case deref h e of
        Inl p \<Rightarrow> Inl p
      | Inr s \<Rightarrow> Inr (Reason s @ ''\<newline>'' @ Cause s))"

text \<open>Dynamic dispatch of \<^verbatim>\<open>err.Error()\<close> on a non-nil interface value.\<close>

definition error_Error :: "store \<Rightarrow> error \<Rightarrow> panic + string" where
  "error_Error h err =
     (case err of
        Plentiful e \<Rightarrow> PlentifulError_Error h e
      | Foreign m \<Rightarrow> Inr m)"

text \<open>
  \<^verbatim>\<open>func New(message string) *PlentifulError\<close>: allocates a struct with the given reason,
  a fresh empty map and the current stack trace. \<^verbatim>\<open>debug.Stack()\<close> is a fact of the
  running process and is passed in as \<open>stackTrace\<close>.
\<close>

definition New :: "string \<Rightarrow> store \<Rightarrow> string \<Rightarrow> store \<times> addr" where
  "New stackTrace h message =
     (h @ [\<lparr>Reason = message, Cause = stackTrace, Details = Some Map.empty\<rparr>], length h)"

text \<open>
  \<^verbatim>\<open>func (pe *PlentifulError) With(key, value string) *PlentifulError {
        pe.Details[key] = value
        return pe }\<close>
\<close>

definition With :: "store \<Rightarrow> addr \<Rightarrow> string \<Rightarrow> string \<Rightarrow> panic + (store \<times> addr)" where
  "With h pe key val =
     (case deref h pe of
        Inl p \<Rightarrow> Inl p
      | Inr s \<Rightarrow>
          (case Details s of
             None \<Rightarrow> Inl NilMapAssignment
           | Some m \<Rightarrow> Inr (h[pe := s\<lparr>Details := Some (m(key \<mapsto> val))\<rparr>], pe)))"

text \<open>
  \<^verbatim>\<open>func Adhere(err error, key, value string) error {
        if perr, ok := err.(*PlentifulError); ok {
            perr.Details[key] = value
            return perr
        }
        return err }\<close>
  The type assertion fails on the nil interface and on every other dynamic type.
\<close>

definition Adhere ::
  "store \<Rightarrow> error option \<Rightarrow> string \<Rightarrow> string \<Rightarrow> panic + (store \<times> error option)" where
  "Adhere h err key val =
     (case err of
        Some (Plentiful perr) \<Rightarrow>
          (case deref h perr of
             Inl p \<Rightarrow> Inl p
           | Inr s \<Rightarrow>
               (case Details s of
                  None \<Rightarrow> Inl NilMapAssignment
                | Some m \<Rightarrow>
                    Inr (h[perr := s\<lparr>Details := Some (m(key \<mapsto> val))\<rparr>], Some (Plentiful perr))))
      | _ \<Rightarrow> Inr (h, err))"

text \<open>
  The data-model invariant of a DiagnosticError: the pointer refers to an allocated
  struct whose \<open>Details\<close> map has been made. \<open>New\<close> is the constructor of the package and
  establishes it; \<open>With\<close> and \<open>Adhere\<close> keep it.
\<close>

definition is_diagnostic :: "store \<Rightarrow> addr \<Rightarrow> bool" where
  "is_diagnostic h a = (a < length h \<and> Details (h ! a) \<noteq> None)"

fun well_formed_error :: "store \<Rightarrow> error option \<Rightarrow> bool" where
  "well_formed_error h (Some (Plentiful a)) = is_diagnostic h a"
| "well_formed_error h (Some (Foreign m)) = True"
| "well_formed_error h None = True"

text \<open>A non-nil error whose pointer, if it is one, refers to an allocated struct.\<close>

fun allocated :: "store \<Rightarrow> error \<Rightarrow> bool" where
  "allocated h (Plentiful a) = (a < length h)"
| "allocated h (Foreign m) = True"

text \<open>The table of a DiagnosticError (empty for the nil map, which reads as empty in Go).\<close>

definition details_of :: "store \<Rightarrow> addr \<Rightarrow> (string \<rightharpoonup> string)" where
  "details_of h a = (case Details (h ! a) of None \<Rightarrow> Map.empty | Some m \<Rightarrow> m)"

section \<open>Standard-library functions used by the tool\<close>

text \<open>
  Go strings are byte sequences, as \<open>string\<close> is here.
  \<^verbatim>\<open>strings.HasSuffix(s, suffix)\<close> is
  \<^verbatim>\<open>len(s) >= len(suffix) && s[len(s)-len(suffix):] == suffix\<close>.
\<close>

definition HasSuffix :: "string \<Rightarrow> string \<Rightarrow> bool" where
  "HasSuffix s suf = (length suf \<le> length s \<and> drop (length s - length suf) s = suf)"

text \<open>\<^verbatim>\<open>strings.Join(elems, sep)\<close>\<close>

fun Join :: "string list \<Rightarrow> string \<Rightarrow> string" where
  "Join [] sep = []"
| "Join [x] sep = x"
| "Join (x # y # ys) sep = x @ sep @ Join (y # ys) sep"

text \<open>
  \<^verbatim>\<open>strings.ReplaceAll(s, old, new)\<close> for a non-empty \<open>old\<close>: the non-overlapping
  occurrences of \<open>old\<close> are replaced from the left. (The tool calls it with \<^verbatim>\<open>"{}"\<close> only;
  Go's special treatment of an empty \<open>old\<close> is not needed and not modelled.)
\<close>

fun ReplaceAll :: "string \<Rightarrow> string \<Rightarrow> string \<Rightarrow> string" where
  "ReplaceAll [] old new = []"
| "ReplaceAll (c # cs) old new =
     (if old \<noteq> [] \<and> prefix old (c # cs)
      then new @ ReplaceAll (drop (length old - 1) cs) old new
      else c # ReplaceAll cs old new)"

text \<open>
  \<^verbatim>\<open>utf8.RuneCountInString\<close>, which \<^verbatim>\<open>fmt\<close> uses to measure a string against a field
  width. \<open>rune_width c cs\<close> is the number of bytes the decoder consumes at a position
  whose first byte is \<open>c\<close> and whose remaining bytes are \<open>cs\<close>: the length of a valid
  UTF-8 encoding, and 1 for an ASCII byte, an invalid lead byte, a truncated or an
  ill-formed sequence.
\<close>

definition in_range :: "nat \<Rightarrow> nat \<Rightarrow> char \<Rightarrow> bool" where
  "in_range lo hi c = (lo \<le> of_char c \<and> of_char c \<le> (hi :: nat))"

text \<open>Size and the accepted range of the second byte, by lead byte (\<open>None\<close>: invalid).\<close>

definition lead_byte :: "nat \<Rightarrow> (nat \<times> nat \<times> nat) option" where
  "lead_byte b =
     (if b < 0xC2 then None
      else if b \<le> 0xDF then Some (2, 0x80, 0xBF)
      else if b = 0xE0 then Some (3, 0xA0, 0xBF)
      else if b = 0xED then Some (3, 0x80, 0x9F)
      else if b \<le> 0xEF then Some (3, 0x80, 0xBF)
      else if b = 0xF0 then Some (4, 0x90, 0xBF)
      else if b \<le> 0xF3 then Some (4, 0x80, 0xBF)
      else if b = 0xF4 then Some (4, 0x80, 0x8F)
      else None)"

definition rune_width :: "char \<Rightarrow> string \<Rightarrow> nat" where
  "rune_width c cs =
     (if (of_char c :: nat) < 0x80 then 1
      else case lead_byte (of_char c) of
             None \<Rightarrow> 1
           | Some (n, lo, hi) \<Rightarrow>
               if length cs < n - 1 then 1
               else if \<not> in_range lo hi (cs ! 0) then 1
               else if n = 2 then 2
               else if \<not> in_range 0x80 0xBF (cs ! 1) then 1
               else if n = 3 then 3
               else if \<not> in_range 0x80 0xBF (cs ! 2) then 1
               else 4)"

fun RuneCountInString :: "string \<Rightarrow> nat" where
  "RuneCountInString [] = 0"
| "RuneCountInString (c # cs) = Suc (RuneCountInString (drop (rune_width c cs - 1) cs))"

text \<open>
  The verb \<^verbatim>\<open>%-11s\<close>: the string, then spaces up to a width of 11 runes (nothing is
  cut when the string is longer). \<open>Sprintf_field k v\<close> is
  \<^verbatim>\<open>fmt.Sprintf("%-11s: %s\n", k, v)\<close>.
\<close>

definition pad_right :: "nat \<Rightarrow> string \<Rightarrow> string" where
  "pad_right wid s = s @ replicate (wid - RuneCountInString s) CHR '' ''"

definition Sprintf_field :: "string \<Rightarrow> string \<Rightarrow> string" where
  "Sprintf_field k v = pad_right 11 k @ '': '' @ v @ ''\<newline>''"

section \<open>The file system\<close>

text \<open>
  A path is its list of components, relative to the directory the tool runs in (the empty
  path). The file system maps the paths that exist to the kind of node there; it may be
  mounted read-only.
\<close>

type_synonym path = "string list"

datatype node = File | Dir

datatype os_error = ENOTDIR | EROFS

record filesystem =
  nodes :: "path \<rightharpoonup> node"
  readonly :: bool

text \<open>
  \<^verbatim>\<open>os.MkdirAll\<close> and \<^verbatim>\<open>os.RemoveAll\<close> belong to the operating system, where they can
  fail for many reasons (permissions, attributes, a full disk). The tool is therefore
  modelled over any pair of such operations, which are fields of the \<open>environment\<close>
  below, and the statements about the workspace speak of the calls that succeed.

  \<open>plain_MkdirAll\<close> and \<open>plain_RemoveAll\<close> are one such pair, used in the example runs:
  a file system without permissions, on which a call fails when a component of the path
  is a regular file or when the file system is read-only, and changes nothing when it
  fails. \<open>plain_MkdirAll\<close> returns nil when every component of the path is a directory
  already; \<open>plain_RemoveAll\<close> returns nil for a path that does not exist, on a writable
  file system.
\<close>

definition plain_MkdirAll :: "path \<Rightarrow> filesystem \<Rightarrow> os_error option \<times> filesystem" where
  "plain_MkdirAll p f =
     (let along = filter (\<lambda>q. q \<noteq> []) (prefixes p) in
      if list_all (\<lambda>q. nodes f q = Some Dir) along then (None, f)
      else if list_ex (\<lambda>q. nodes f q = Some File) along then (Some ENOTDIR, f)
      else if readonly f then (Some EROFS, f)
      else (None, f\<lparr>nodes := (\<lambda>q. if q \<in> set along \<and> nodes f q = None then Some Dir
                                    else nodes f q)\<rparr>))"

definition plain_RemoveAll :: "path \<Rightarrow> filesystem \<Rightarrow> os_error option \<times> filesystem" where
  "plain_RemoveAll p f =
     (let parents = filter (\<lambda>q. q \<noteq> [] \<and> q \<noteq> p) (prefixes p) in
      if list_ex (\<lambda>q. nodes f q = Some File) parents then (Some ENOTDIR, f)
      else if readonly f then (Some EROFS, f)
      else (None, f\<lparr>nodes := (\<lambda>q. if prefix p q then None else nodes f q)\<rparr>))"

section \<open>Package util and the process\<close>

text \<open>
  Modelled from the spec: the run phase of package util (\<^verbatim>\<open>util.GetRunPhase\<close>,
  \<^verbatim>\<open>util.SetRunPhase\<close>), which is defined elsewhere in the repository. It is one of
  Unset, Preprocess and Instrument, a process-wide variable with plain get and set that
  is Unset when the process starts.
\<close>

datatype RunPhase = PUnset | PPreprocess | PInstrument

text \<open>
  Modelled from the spec: \<^verbatim>\<open>util.PathNotExists\<close>, defined elsewhere in the repository;
  the workspace root is made "if absent", so the function tells that nothing exists at
  the path.
\<close>

definition PathNotExists :: "filesystem \<Rightarrow> path \<Rightarrow> bool" where
  "PathNotExists f p = (nodes f p = None)"

text \<open>
  The facts of the running process and of the build that the tool only reads: the
  argument vector, the logger's path, \<^verbatim>\<open>$PWD\<close>, the runtime's identity, the tool's
  version and name, the stack trace \<^verbatim>\<open>debug.Stack()\<close> yields, the workspace root
  \<^verbatim>\<open>util.TempBuildDir\<close>, the names \<^verbatim>\<open>util.PPreprocess\<close> and \<^verbatim>\<open>util.PInstrument\<close> as
  directory names, the text of an operating-system error, and the operating system's
  \<^verbatim>\<open>os.MkdirAll\<close> and \<^verbatim>\<open>os.RemoveAll\<close>.
\<close>

record environment =
  Args :: "string list"
  LoggerPath :: string
  PWD :: string
  GOOS :: string
  GOARCH :: string
  Version :: string
  ToolVersion :: string
  ToolName :: string
  Stack :: string
  TempBuildDir :: path
  PreprocessDir :: string
  InstrumentDir :: string
  ErrorText :: "os_error \<Rightarrow> string"
  MkdirAll :: "path \<Rightarrow> filesystem \<Rightarrow> os_error option \<times> filesystem"
  RemoveAll :: "path \<Rightarrow> filesystem \<Rightarrow> os_error option \<times> filesystem"

text \<open>
  Modelled from the spec: \<^verbatim>\<open>util.GetTempBuildDirWith\<close>, defined elsewhere in the
  repository; the workspace is a root directory plus two named subdirectories, so the
  function names the subdirectory of the root with the given name.
\<close>

definition GetTempBuildDirWith :: "environment \<Rightarrow> string \<Rightarrow> path" where
  "GetTempBuildDirWith env name = TempBuildDir env @ [name]"

text \<open>What the process changes: the file system, the allocated errors, the run phase,
  and the two output streams.\<close>

record world =
  fsys :: filesystem
  objects :: store
  rp :: RunPhase
  stdout :: string
  stderr :: string

text \<open>
  Modelled from the spec: \<^verbatim>\<open>util.InPreprocess\<close> and \<^verbatim>\<open>util.InInstrument\<close>, defined
  elsewhere in the repository, read the run phase.
\<close>

definition InPreprocess :: "world \<Rightarrow> bool" where
  "InPreprocess w = (rp w = PPreprocess)"

definition InInstrument :: "world \<Rightarrow> bool" where
  "InInstrument w = (rp w = PInstrument)"

text \<open>
  Modelled from the spec: the handlers \<^verbatim>\<open>config.InitConfig\<close>, \<^verbatim>\<open>config.PrintVersion\<close>,
  \<^verbatim>\<open>config.Configure\<close>, \<^verbatim>\<open>preprocess.Preprocess\<close> and \<^verbatim>\<open>instrument.Instrument\<close>, defined
  elsewhere in the repository. Each is invoked with no argument beyond the state of the
  process, which it may change, and returns an error or nil. They are parameters of the
  model.
\<close>

type_synonym handler = "world \<Rightarrow> error option \<times> world"

record handlers =
  InitConfig :: handler
  PrintVersion :: handler
  Configure :: handler
  Preprocess :: handler
  Instrument :: handler

text \<open>
  Modelled from the spec: \<^verbatim>\<open>util.LogFatal\<close>, defined elsewhere in the repository, emits
  the report it is given and terminates the process with a non-zero status of its own
  choice. A run thus ends in one of three ways: by \<^verbatim>\<open>os.Exit(code)\<close> or the return from
  \<open>main\<close> (code 0), by \<open>LogFatal\<close> with the report, or by a panic.
\<close>

datatype ending = Exit nat | LogFatal string | Panicked panic

section \<open>Package main\<close>

definition SubcommandSet :: string where "SubcommandSet = ''set''"
definition SubcommandGo :: string where "SubcommandGo = ''go''"
definition SubcommandVersion :: string where "SubcommandVersion = ''version''"
definition SubcommandRemix :: string where "SubcommandRemix = ''remix''"

definition usage :: string where
  "usage =
     ''Usage: {} <command> [args]\<newline>'' @
     ''Example:\<newline>'' @
     [CHR 0x09] @ ''{} go build\<newline>'' @
     [CHR 0x09] @ ''{} go install\<newline>'' @
     [CHR 0x09] @ ''{} go build main.go\<newline>'' @
     [CHR 0x09] @ ''{} version\<newline>'' @
     [CHR 0x09] @ ''{} set -verbose -rule=custom.json\<newline>'' @
     ''\<newline>'' @
     ''Command:\<newline>'' @
     [CHR 0x09] @ ''version    print the version\<newline>'' @
     [CHR 0x09] @ ''set        set the configuration\<newline>'' @
     [CHR 0x09] @ ''go         build the Go application\<newline>''"

text \<open>
  \<^verbatim>\<open>func printUsage()\<close>: the tool's name replaces every \<^verbatim>\<open>{}\<close> of the usage text, which
  is printed on standard output. (The source also stores the result in the variable
  \<^verbatim>\<open>usage\<close>; every run prints at most once, so the stored text is never read again.)
\<close>

definition printUsage :: "environment \<Rightarrow> world \<Rightarrow> world" where
  "printUsage env w = w\<lparr>stdout := stdout w @ ReplaceAll usage ''{}'' (ToolName env)\<rparr>"

text \<open>
  \<^verbatim>\<open>func initTempDir() error\<close>. The two results of the loop body are discarded, as in
  the source.
\<close>

definition recreate :: "environment \<Rightarrow> string \<Rightarrow> filesystem \<Rightarrow> filesystem" where
  "recreate env subdir f =
     (let (_, f1) = RemoveAll env (GetTempBuildDirWith env subdir) f;
          (_, f2) = MkdirAll env (GetTempBuildDirWith env subdir) f1
      in f2)"

definition initTempDir :: "environment \<Rightarrow> world \<Rightarrow> error option \<times> world" where
  "initTempDir env w =
     (if rp w = PInstrument then (None, w)
      else
        case (if PathNotExists (fsys w) (TempBuildDir env)
              then MkdirAll env (TempBuildDir env) (fsys w) else (None, fsys w)) of
          (Some err, f1) \<Rightarrow>
            (let (h, e) = New (Stack env) (objects w) (ErrorText env err)
             in (Some (Plentiful e), w\<lparr>fsys := f1, objects := h\<rparr>))
        | (None, f1) \<Rightarrow>
            (None, w\<lparr>fsys := fold (recreate env) [PreprocessDir env, InstrumentDir env] f1\<rparr>))"

text \<open>
  The \<^verbatim>\<open>switch\<close> at the head of \<open>initEnv\<close>, on \<^verbatim>\<open>os.Args[1]\<close>: it sets the run phase
  in its first two cases and does nothing in the default case.
\<close>

definition determinePhase :: "string \<Rightarrow> RunPhase \<Rightarrow> RunPhase" where
  "determinePhase arg1 phase =
     (if HasSuffix arg1 SubcommandGo then PPreprocess
      else if arg1 = SubcommandRemix then PInstrument
      else phase)"

text \<open>
  \<^verbatim>\<open>func initEnv() error\<close>. \<^verbatim>\<open>util.Assert\<close>, defined elsewhere in the repository, is taken
  to stop the run with its message when its condition is false.
\<close>

definition initEnv ::
  "environment \<Rightarrow> handlers \<Rightarrow> world \<Rightarrow> panic + (error option \<times> world)" where
  "initEnv env hs w =
     (if \<not> 2 \<le> length (Args env) then Inl (AssertionFailed ''no command specified'')
      else
        let w1 = w\<lparr>rp := determinePhase (Args env ! 1) (rp w)\<rparr> in
        case initTempDir env w1 of
          (Some err, w2) \<Rightarrow> Inr (Some err, w2)
        | (None, w2) \<Rightarrow>
            if InPreprocess w2 \<or> InInstrument w2 then Inr (InitConfig hs w2)
            else Inr (None, w2))"

text \<open>
  \<^verbatim>\<open>func fatal(err error)\<close>, called with a non-nil error: the result is the message
  handed to \<^verbatim>\<open>util.LogFatal\<close>. Go leaves the order in which \<^verbatim>\<open>range\<close> visits a map open;
  \<open>ks\<close> is the list of keys in the order of this visit, and \<open>range_order\<close> says that it
  is such an order: each key of the map once.
\<close>

definition range_order :: "(string \<rightharpoonup> string) \<Rightarrow> string list \<Rightarrow> bool" where
  "range_order m ks = (distinct ks \<and> set ks = dom m)"

definition range_lines :: "(string \<rightharpoonup> string) \<Rightarrow> string list \<Rightarrow> string" where
  "range_lines m ks =
     concat (map (\<lambda>k. case m k of None \<Rightarrow> [] | Some v \<Rightarrow> Sprintf_field k v) ks)"

definition fatal :: "environment \<Rightarrow> store \<Rightarrow> string list \<Rightarrow> error \<Rightarrow> panic + string" where
  "fatal env h ks err =
     (let message = ''===== Environments =====\<newline>'';
          message = message @ Sprintf_field ''command'' (Join (Args env) '' '');
          message = message @ Sprintf_field ''errorLog'' (LoggerPath env);
          message = message @ Sprintf_field ''workDir'' (PWD env);
          message = message @ Sprintf_field ''toolchain''
                      (GOOS env @ ''/'' @ GOARCH env @ '', '' @ Version env @ '', '' @ ToolVersion env)
      in case err of
           Plentiful perr \<Rightarrow>
             (case deref h perr of
                Inl p \<Rightarrow> Inl p
              | Inr s \<Rightarrow>
                  (let message = (if 0 < length ks
                                  then message @ range_lines (details_of h perr) ks
                                  else message);
                       message = message @ ''\<newline>===== Fatal Error ======\<newline>'';
                       message = message @ ''\<newline>'' @ Reason s
                   in Inr message))
         | Foreign m \<Rightarrow> Inr (message @ ''\<newline>===== Fatal Error ======\<newline>''))"

definition report :: "environment \<Rightarrow> string list \<Rightarrow> error \<Rightarrow> world \<Rightarrow> ending \<times> world" where
  "report env ks err w =
     (case fatal env (objects w) ks err of
        Inl p \<Rightarrow> (Panicked p, w)
      | Inr message \<Rightarrow> (LogFatal message, w))"

text \<open>
  \<^verbatim>\<open>func main()\<close>. \<open>conclude\<close> is the check \<^verbatim>\<open>if err != nil { fatal(err) }\<close> that ends
  \<open>main\<close>.
\<close>

definition conclude :: "environment \<Rightarrow> string list \<Rightarrow> error option \<times> world \<Rightarrow> ending \<times> world" where
  "conclude env ks r =
     (case r of
        (Some err, w) \<Rightarrow> report env ks err w
      | (None, w) \<Rightarrow> (Exit 0, w))"

definition main :: "environment \<Rightarrow> handlers \<Rightarrow> string list \<Rightarrow> world \<Rightarrow> ending \<times> world" where
  "main env hs ks w =
     (if length (Args env) < 2 then (Exit 0, printUsage env w)
      else
        case initEnv env hs w of
          Inl p \<Rightarrow> (Panicked p, w)
        | Inr (Some err, w1) \<Rightarrow> report env ks err w1
        | Inr (None, w1) \<Rightarrow>
            (let subcmd = Args env ! 1 in
             if subcmd = SubcommandVersion then conclude env ks (PrintVersion hs w1)
             else if subcmd = SubcommandSet then conclude env ks (Configure hs w1)
             else if subcmd = SubcommandGo then conclude env ks (Preprocess hs w1)
             else if subcmd = SubcommandRemix then
               (case Instrument hs w1 of
                  (Some err, w2) \<Rightarrow>
                    (case error_Error (objects w2) err of
                       Inl p \<Rightarrow> (Panicked p, w2)
                     | Inr rendered \<Rightarrow> (Exit 1, w2\<lparr>stderr := stderr w2 @ rendered @ ''\<newline>''\<rparr>))
                | (None, w2) \<Rightarrow> (Exit 0, w2))
             else conclude env ks (None, printUsage env w1)))"

section \<open>Descriptions used in the statements\<close>

text \<open>
  The environment block of a report, written out: a heading and four lines, each a label
  filled with spaces to eleven columns, then a colon, a space and the value.
\<close>

definition environment_block :: "environment \<Rightarrow> string" where
  "environment_block env =
     ''===== Environments =====\<newline>'' @
     ''command    : '' @ Join (Args env) '' '' @ ''\<newline>'' @
     ''errorLog   : '' @ LoggerPath env @ ''\<newline>'' @
     ''workDir    : '' @ PWD env @ ''\<newline>'' @
     ''toolchain  : '' @ GOOS env @ ''/'' @ GOARCH env @ '', '' @ Version env @ '', '' @
        ToolVersion env @ ''\<newline>''"

text \<open>
  The workspace is ready when its root is a directory and each of the two named
  subdirectories is a directory with nothing below it.
\<close>

definition is_dir :: "filesystem \<Rightarrow> path \<Rightarrow> bool" where
  "is_dir f p = (p = [] \<or> nodes f p = Some Dir)"

definition empty_dir :: "filesystem \<Rightarrow> path \<Rightarrow> bool" where
  "empty_dir f p = (nodes f p = Some Dir \<and> (\<forall>q. strict_prefix p q \<longrightarrow> nodes f q = None))"

definition workspace_ready :: "environment \<Rightarrow> filesystem \<Rightarrow> bool" where
  "workspace_ready env f =
     (is_dir f (TempBuildDir env)
      \<and> empty_dir f (GetTempBuildDirWith env (PreprocessDir env))
      \<and> empty_dir f (GetTempBuildDirWith env (InstrumentDir env)))"

text \<open>
  What a call that returns nil has done. After a successful \<^verbatim>\<open>os.RemoveAll\<close> nothing
  exists at the path or below it, and every other path is as before. After a successful
  \<^verbatim>\<open>os.MkdirAll\<close> every component of the path is a directory, and every other path is as
  before.
\<close>

definition removed :: "filesystem \<Rightarrow> path \<Rightarrow> filesystem \<Rightarrow> bool" where
  "removed f p f' = (\<forall>q. nodes f' q = (if prefix p q then None else nodes f q))"

definition made :: "filesystem \<Rightarrow> path \<Rightarrow> filesystem \<Rightarrow> bool" where
  "made f p f' = (\<forall>q. nodes f' q = (if q \<noteq> [] \<and> prefix q p then Some Dir else nodes f q))"

definition os_contract :: "environment \<Rightarrow> bool" where
  "os_contract env =
     ((\<forall>p f f'. RemoveAll env p f = (None, f') \<longrightarrow> removed f p f')
      \<and> (\<forall>p f f'. MkdirAll env p f = (None, f') \<longrightarrow> made f p f'))"

text \<open>
  The calls \<open>initTempDir\<close> makes on a file system all succeed: making the root if it is
  absent, and removing and making each of the two subdirectories in turn. The predicate
  runs the calls in the order of the source.
\<close>

definition recreate_ok :: "environment \<Rightarrow> string \<Rightarrow> filesystem \<Rightarrow> bool" where
  "recreate_ok env subdir f =
     (fst (RemoveAll env (GetTempBuildDirWith env subdir) f) = None
      \<and> fst (MkdirAll env (GetTempBuildDirWith env subdir)
                (snd (RemoveAll env (GetTempBuildDirWith env subdir) f))) = None)"

definition calls_succeed :: "environment \<Rightarrow> filesystem \<Rightarrow> bool" where
  "calls_succeed env f =
     (let absent = PathNotExists f (TempBuildDir env);
          f1 = (if absent then snd (MkdirAll env (TempBuildDir env) f) else f)
      in (absent \<longrightarrow> fst (MkdirAll env (TempBuildDir env) f) = None)
         \<and> recreate_ok env (PreprocessDir env) f1
         \<and> recreate_ok env (InstrumentDir env) (recreate env (PreprocessDir env) f1))"

text \<open>A configuration handler that leaves the run phase as it finds it.\<close>

definition keeps_phase :: "handlers \<Rightarrow> bool" where
  "keeps_phase hs = (\<forall>w. rp (snd (InitConfig hs w)) = rp w)"

section \<open>Example runs\<close>

definition demo_env :: "string list \<Rightarrow> environment" where
  "demo_env argv =
     \<lparr>Args = argv, LoggerPath = ''.otel-build/debug.log'', PWD = ''/home/dev/app'',
      GOOS = ''linux'', GOARCH = ''amd64'', Version = ''go1.22.0'', ToolVersion = ''v0.1.0'',
      ToolName = ''otel'', Stack = ''goroutine 1 [running]'',
      TempBuildDir = [''.otel-build''], PreprocessDir = ''preprocess'',
      InstrumentDir = ''instrument'',
      ErrorText = (\<lambda>e. case e of ENOTDIR \<Rightarrow> ''mkdir .otel-build: not a directory''
                             | EROFS \<Rightarrow> ''mkdir .otel-build: read-only file system''),
      MkdirAll = plain_MkdirAll, RemoveAll = plain_RemoveAll\<rparr>"

text \<open>A file system holding the leftovers of an earlier build, writable or read-only.\<close>

definition stale_nodes :: "path \<rightharpoonup> node" where
  "stale_nodes =
     [[''.otel-build''] \<mapsto> Dir,
      [''.otel-build'', ''preprocess''] \<mapsto> Dir,
      [''.otel-build'', ''preprocess'', ''old.o''] \<mapsto> File,
      [''main.go''] \<mapsto> File]"

definition stale_fs :: "bool \<Rightarrow> filesystem" where
  "stale_fs ro = \<lparr>nodes = stale_nodes, readonly = ro\<rparr>"

text \<open>A source tree in which no workspace has been made yet.\<close>

definition fresh_fs :: "bool \<Rightarrow> filesystem" where
  "fresh_fs ro = \<lparr>nodes = [[''main.go''] \<mapsto> File], readonly = ro\<rparr>"

definition demo_world :: "filesystem \<Rightarrow> RunPhase \<Rightarrow> world" where
  "demo_world f phase = \<lparr>fsys = f, objects = [], rp = phase, stdout = [], stderr = []\<rparr>"

text \<open>Handlers that succeed, except that \<open>failing\<close> returns a new error with the reason given.\<close>

definition succeeding :: handler where
  "succeeding w = (None, w)"

definition failing :: "string \<Rightarrow> string \<Rightarrow> handler" where
  "failing trace reason w =
     (let (h, e) = New trace (objects w) reason in (Some (Plentiful e), w\<lparr>objects := h\<rparr>))"

definition demo_handlers :: "handler \<Rightarrow> handler \<Rightarrow> handlers" where
  "demo_handlers init remix =
     \<lparr>InitConfig = init, PrintVersion = succeeding, Configure = succeeding,
      Preprocess = succeeding, Instrument = remix\<rparr>"

text \<open>The stores the example runs end with.\<close>

definition link_error :: store where
  "link_error = [\<lparr>Reason = ''link error'', Cause = ''goroutine 1 [running]'',
                  Details = Some [''stage'' \<mapsto> ''link'']\<rparr>]"

definition compile_failed :: store where
  "compile_failed = [\<lparr>Reason = ''compile failed'', Cause = ''goroutine 1 [running]'',
                      Details = Some Map.empty\<rparr>]"

definition details_unmade :: store where
  "details_unmade = [\<lparr>Reason = ''link error'', Cause = ''goroutine 1 [running]'',
                      Details = None\<rparr>]"

definition mkdir_failed :: store where
  "mkdir_failed = [\<lparr>Reason = ''mkdir .otel-build: read-only file system'',
                    Cause = ''goroutine 1 [running]'', Details = Some Map.empty\<rparr>]"

section \<open>Properties of errc\<close>

lemma New_is_diagnostic:
  "New st h msg = (h', a) \<Longrightarrow> is_diagnostic h' a \<and> details_of h' a = Map.empty
     \<and> Reason (h' ! a) = msg \<and> Cause (h' ! a) = st"
  by (auto simp: New_def is_diagnostic_def details_of_def)

lemma New_keeps_diagnostic:
  "New st h msg = (h', a) \<Longrightarrow> is_diagnostic h b \<Longrightarrow> is_diagnostic h' b"
  by (auto simp: New_def is_diagnostic_def nth_append)

lemma New_Error_prefix:
  "New st h msg = (h', a) \<Longrightarrow> \<exists>rest. PlentifulError_Error h' a = Inr (msg @ rest)"
  by (auto simp: New_def PlentifulError_Error_def deref_def)

lemma With_keeps_diagnostic:
  "With h a k v = Inr (h', a') \<Longrightarrow> is_diagnostic h b \<Longrightarrow> is_diagnostic h' b"
  by (cases "b = a")
     (auto simp: With_def deref_def is_diagnostic_def split: if_splits option.splits)

lemma Adhere_keeps_diagnostic:
  assumes "Adhere h err k v = Inr (h', err')" and "is_diagnostic h b"
  shows "is_diagnostic h' b"
proof (cases err)
  case None
  with assms show ?thesis by (simp add: Adhere_def)
next
  case (Some e)
  show ?thesis
  proof (cases e)
    case (Foreign m)
    with Some assms show ?thesis by (simp add: Adhere_def)
  next
    case (Plentiful a)
    with Some assms show ?thesis
      by (cases "b = a")
         (auto simp: Adhere_def deref_def is_diagnostic_def split: if_splits option.splits)
  qed
qed

lemma With_diagnostic:
  assumes "is_diagnostic h a"
  shows "With h a k v =
           Inr (h[a := (h ! a)\<lparr>Details := Some ((details_of h a)(k \<mapsto> v))\<rparr>], a)"
  using assms
  by (auto simp: With_def deref_def is_diagnostic_def details_of_def split: option.splits)

lemma Adhere_diagnostic:
  assumes "is_diagnostic h a"
  shows "Adhere h (Some (Plentiful a)) k v =
           Inr (h[a := (h ! a)\<lparr>Details := Some ((details_of h a)(k \<mapsto> v))\<rparr>],
                Some (Plentiful a))"
  using assms
  by (auto simp: Adhere_def deref_def is_diagnostic_def details_of_def split: option.splits)

lemma details_of_update:
  "a < length h \<Longrightarrow> details_of (h[a := s\<lparr>Details := Some m\<rparr>]) a = m"
  by (simp add: details_of_def)

lemma Adhere_succeeds_iff:
  "(\<exists>r. Adhere h (Some (Plentiful a)) k v = Inr r) \<longleftrightarrow> is_diagnostic h a"
  by (auto simp: Adhere_def deref_def is_diagnostic_def split: option.splits)

text \<open>
  C6, as the code has it. For every key and value, \<open>Adhere\<close> returns the nil interface and
  a foreign error as they are, without panicking and with the store unchanged. For a
  pointer to a DiagnosticError, that is to an allocated struct whose details map has
  been made, it does not panic, returns the very pointer it was given and upserts the
  pair into the details of the struct behind it, in place: the entry for the key holds
  the value, and all other entries, the reason, the cause and every other struct of the
  store are as before. For a pointer error this condition is also necessary: \<open>Adhere\<close>
  panics on a nil pointer and on a struct whose details map is nil. Every error made by
  \<open>New\<close> meets the condition.
\<close>

theorem Adhere_annotates:
  "Adhere h None k v = Inr (h, None)
   \<and> Adhere h (Some (Foreign m)) k v = Inr (h, Some (Foreign m))
   \<and> (is_diagnostic h a \<longrightarrow>
        (\<exists>h'. Adhere h (Some (Plentiful a)) k v = Inr (h', Some (Plentiful a))
            \<and> length h' = length h
            \<and> is_diagnostic h' a
            \<and> details_of h' a = (details_of h a)(k \<mapsto> v)
            \<and> Reason (h' ! a) = Reason (h ! a)
            \<and> Cause (h' ! a) = Cause (h ! a)
            \<and> (\<forall>b. b \<noteq> a \<longrightarrow> h' ! b = h ! b)))
   \<and> ((\<exists>r. Adhere h (Some (Plentiful a)) k v = Inr r) \<longleftrightarrow> is_diagnostic h a)
   \<and> (New st h msg = (h1, e) \<longrightarrow> is_diagnostic h1 e)"
proof -
  have nil: "Adhere h None k v = Inr (h, None)" by (simp add: Adhere_def)
  have foreign: "Adhere h (Some (Foreign m)) k v = Inr (h, Some (Foreign m))"
    by (simp add: Adhere_def)
  have pointer: "\<exists>h'. Adhere h (Some (Plentiful a)) k v = Inr (h', Some (Plentiful a))
            \<and> length h' = length h
            \<and> is_diagnostic h' a
            \<and> details_of h' a = (details_of h a)(k \<mapsto> v)
            \<and> Reason (h' ! a) = Reason (h ! a)
            \<and> Cause (h' ! a) = Cause (h ! a)
            \<and> (\<forall>b. b \<noteq> a \<longrightarrow> h' ! b = h ! b)" if d: "is_diagnostic h a"
  proof -
    from d have len: "a < length h" by (simp add: is_diagnostic_def)
    let ?h' = "h[a := (h ! a)\<lparr>Details := Some ((details_of h a)(k \<mapsto> v))\<rparr>]"
    have run: "Adhere h (Some (Plentiful a)) k v = Inr (?h', Some (Plentiful a))"
      by (rule Adhere_diagnostic [OF d])
    have "length ?h' = length h" by simp
    moreover have "is_diagnostic ?h' a" using len by (simp add: is_diagnostic_def)
    moreover have "details_of ?h' a = (details_of h a)(k \<mapsto> v)"
      using len by (simp add: details_of_update)
    moreover have "Reason (?h' ! a) = Reason (h ! a)" "Cause (?h' ! a) = Cause (h ! a)"
      using len by simp_all
    moreover have "\<forall>b. b \<noteq> a \<longrightarrow> ?h' ! b = h ! b" by simp
    ultimately show ?thesis using run by (intro exI [of _ ?h']) simp
  qed
  have made: "is_diagnostic h1 e" if "New st h msg = (h1, e)"
    using New_is_diagnostic [OF that] by simp
  from nil foreign pointer Adhere_succeeds_iff [of h a k v] made show ?thesis
    by (intro conjI impI) assumption+
qed

text \<open>
  C6 at the error "compile failed" as \<open>New\<close> makes it, annotated with stage = link.
\<close>

theorem Adhere_annotates_witness:
  "is_diagnostic compile_failed 0
   \<and> (\<exists>h'. Adhere compile_failed (Some (Plentiful 0)) ''stage'' ''link'' = Inr (h', Some (Plentiful 0))
          \<and> details_of h' 0 = (details_of compile_failed 0)(''stage'' \<mapsto> ''link''))
   \<and> New ''goroutine 1 [running]'' [] ''compile failed'' = (compile_failed, 0)
   \<and> is_diagnostic compile_failed 0"
proof -
  have d: "is_diagnostic compile_failed 0"
    by (simp add: is_diagnostic_def compile_failed_def)
  have n: "New ''goroutine 1 [running]'' [] ''compile failed'' = (compile_failed, 0)"
    by (simp add: New_def compile_failed_def)
  from Adhere_annotates [of compile_failed "''stage''" "''link''" _ 0,
        THEN conjunct2, THEN conjunct2, THEN conjunct1, THEN mp, OF d]
  obtain h' where r: "Adhere compile_failed (Some (Plentiful 0)) ''stage'' ''link'' = Inr (h', Some (Plentiful 0))"
    "details_of h' 0 = (details_of compile_failed 0)(''stage'' \<mapsto> ''link'')"
    by (elim exE conjE)
  have ex: "\<exists>h'. Adhere compile_failed (Some (Plentiful 0)) ''stage'' ''link'' = Inr (h', Some (Plentiful 0))
          \<and> details_of h' 0 = (details_of compile_failed 0)(''stage'' \<mapsto> ''link'')"
    by (intro exI [of _ h'] conjI) (rule r)+
  have d2: "is_diagnostic compile_failed 0"
    by (rule Adhere_annotates [of "[]" _ _ _ _ "''goroutine 1 [running]''" "''compile failed''"
          compile_failed 0, THEN conjunct2, THEN conjunct2, THEN conjunct2, THEN conjunct2,
          THEN mp, OF n])
  from d ex n d2 show ?thesis by (intro conjI)
qed

text \<open>
  \<open>Adhere\<close> does fail on some error values: on a PlentifulError whose details map is nil,
  as the struct literal without the field gives it, the assignment to the map panics.
\<close>

theorem Adhere_nil_details_counterexample:
  "Adhere details_unmade (Some (Plentiful 0)) ''stage'' ''link'' = Inl NilMapAssignment"
  by (simp add: Adhere_def deref_def details_unmade_def)

text \<open>
  C7. \<open>With\<close> is an idempotent upsert. For every DiagnosticError \<open>e\<close>, key \<open>k\<close> and values
  \<open>v1\<close>, \<open>v2\<close>: attaching \<open>v1\<close> and then \<open>v2\<close> under \<open>k\<close> succeeds both times, each call
  returns the pointer \<open>e\<close> itself, and the store that results is the one a single
  attachment of \<open>v2\<close> gives. The details then hold \<open>v2\<close> under \<open>k\<close>, the second call adds
  no entry (the key set after it is that after the first call, the old keys plus \<open>k\<close>),
  and the entries under other keys are untouched.
\<close>

theorem With_idempotent_upsert:
  assumes "is_diagnostic h e"
  shows "\<exists>h1 h2. With h e k v1 = Inr (h1, e)
           \<and> With h1 e k v2 = Inr (h2, e)
           \<and> With h e k v2 = Inr (h2, e)
           \<and> details_of h2 e k = Some v2
           \<and> dom (details_of h2 e) = dom (details_of h1 e)
           \<and> dom (details_of h1 e) = insert k (dom (details_of h e))
           \<and> (\<forall>k'. k' \<noteq> k \<longrightarrow> details_of h2 e k' = details_of h e k')"
proof -
  from assms have len: "e < length h" by (simp add: is_diagnostic_def)
  let ?h1 = "h[e := (h ! e)\<lparr>Details := Some ((details_of h e)(k \<mapsto> v1))\<rparr>]"
  let ?h2 = "h[e := (h ! e)\<lparr>Details := Some ((details_of h e)(k \<mapsto> v2))\<rparr>]"
  have one: "With h e k v1 = Inr (?h1, e)" by (rule With_diagnostic [OF assms])
  have d1: "is_diagnostic ?h1 e" using len by (simp add: is_diagnostic_def)
  have two: "With ?h1 e k v2 = Inr (?h2, e)"
    using With_diagnostic [OF d1, of k v2] len by (simp add: details_of_update)
  have single: "With h e k v2 = Inr (?h2, e)" by (rule With_diagnostic [OF assms])
  have m2: "details_of ?h2 e = (details_of h e)(k \<mapsto> v2)"
    and m1: "details_of ?h1 e = (details_of h e)(k \<mapsto> v1)"
    using len by (simp_all add: details_of_update)
  have "details_of ?h2 e k = Some v2" by (simp add: m2)
  moreover have "dom (details_of ?h2 e) = dom (details_of ?h1 e)" by (simp add: m1 m2)
  moreover have "dom (details_of ?h1 e) = insert k (dom (details_of h e))" by (simp add: m1)
  moreover have "\<forall>k'. k' \<noteq> k \<longrightarrow> details_of ?h2 e k' = details_of h e k'" by (simp add: m2)
  ultimately show ?thesis using one two single
    by (intro exI [of _ ?h1] exI [of _ ?h2]) (intro conjI)
qed

text \<open>
  C7 at an error whose stage is "parse": attaching "compile" and then "link" leaves "link".
\<close>

theorem With_idempotent_upsert_witness:
  "is_diagnostic [\<lparr>Reason = ''r'', Cause = ''c'', Details = Some [''stage'' \<mapsto> ''parse'']\<rparr>] 0
   \<and> (\<exists>h1 h2.
         With [\<lparr>Reason = ''r'', Cause = ''c'', Details = Some [''stage'' \<mapsto> ''parse'']\<rparr>] 0
           ''stage'' ''compile'' = Inr (h1, 0)
       \<and> With h1 0 ''stage'' ''link'' = Inr (h2, 0)
       \<and> details_of h2 0 ''stage'' = Some ''link'')"
proof -
  let ?h = "[\<lparr>Reason = ''r'', Cause = ''c'', Details = Some [''stage'' \<mapsto> ''parse'']\<rparr>]"
  have d: "is_diagnostic ?h 0" by (simp add: is_diagnostic_def)
  from With_idempotent_upsert [OF d, of "''stage''" "''compile''" "''link''"]
  obtain h1 h2 where r: "With ?h 0 ''stage'' ''compile'' = Inr (h1, 0)"
     "With h1 0 ''stage'' ''link'' = Inr (h2, 0)" "details_of h2 0 ''stage'' = Some ''link''"
    by (elim exE conjE)
  have "\<exists>h1 h2. With ?h 0 ''stage'' ''compile'' = Inr (h1, 0)
       \<and> With h1 0 ''stage'' ''link'' = Inr (h2, 0)
       \<and> details_of h2 0 ''stage'' = Some ''link''"
    by (intro exI [of _ h1] exI [of _ h2] conjI) (rule r)+
  with d show ?thesis by (rule conjI)
qed

section \<open>The run phase\<close>

lemma HasSuffix_iff_suffix: "HasSuffix s suf \<longleftrightarrow> suffix suf s"
proof
  assume "HasSuffix s suf"
  then have "s = take (length s - length suf) s @ suf"
    by (metis HasSuffix_def append_take_drop_id)
  then show "suffix suf s" by (metis suffixI)
next
  assume "suffix suf s"
  then obtain zs where "s = zs @ suf" by (auto simp: suffix_def)
  then show "HasSuffix s suf" by (simp add: HasSuffix_def)
qed

lemma determinePhase_suffix:
  "determinePhase a phase =
     (if suffix SubcommandGo a then PPreprocess
      else if a = SubcommandRemix then PInstrument else phase)"
  by (simp add: determinePhase_def HasSuffix_iff_suffix)

lemma initTempDir_keeps_phase: "rp (snd (initTempDir env w)) = rp w"
  by (cases "MkdirAll env (TempBuildDir env) (fsys w)")
     (auto simp: initTempDir_def New_def split: option.splits)

lemma initEnv_phase:
  assumes "2 \<le> length (Args env)"
    and "p = (if suffix SubcommandGo (Args env ! 1) then PPreprocess
              else if Args env ! 1 = SubcommandRemix then PInstrument else rp w)"
  shows "\<exists>r w2. initEnv env hs w = Inr r \<and> rp w2 = p
           \<and> (r = InitConfig hs w2 \<and> (p = PPreprocess \<or> p = PInstrument)
               \<or> snd r = w2 \<and> (fst r \<noteq> None \<or> p \<noteq> PPreprocess \<and> p \<noteq> PInstrument))
           \<and> (keeps_phase hs \<longrightarrow> rp (snd r) = p)"
proof -
  let ?w1 = "w\<lparr>rp := determinePhase (Args env ! 1) (rp w)\<rparr>"
  have p: "rp ?w1 = p" using assms(2) by (simp add: determinePhase_suffix)
  obtain e w2 where t: "initTempDir env ?w1 = (e, w2)" by (cases "initTempDir env ?w1")
  have p2: "rp w2 = p" using initTempDir_keeps_phase [of env ?w1] t p by simp
  show ?thesis
  proof (cases e)
    case (Some err)
    with assms(1) t have "initEnv env hs w = Inr (Some err, w2)" by (simp add: initEnv_def)
    with p2 show ?thesis by (intro exI [of _ "(Some err, w2)"] exI [of _ w2]) simp
  next
    case None
    show ?thesis
    proof (cases "p = PPreprocess \<or> p = PInstrument")
      case True
      with assms(1) t None p2 have r: "initEnv env hs w = Inr (InitConfig hs w2)"
        by (auto simp: initEnv_def InPreprocess_def InInstrument_def)
      have "keeps_phase hs \<longrightarrow> rp (snd (InitConfig hs w2)) = p"
        using p2 by (simp add: keeps_phase_def)
      with r p2 True show ?thesis
        by (intro exI [of _ "InitConfig hs w2"] exI [of _ w2]) simp
    next
      case False
      with assms(1) t None p2 have "initEnv env hs w = Inr (None, w2)"
        by (auto simp: initEnv_def InPreprocess_def InInstrument_def)
      with p2 False show ?thesis by (intro exI [of _ "(None, w2)"] exI [of _ w2]) simp
    qed
  qed
qed

lemma suffix_go:
  "suffix SubcommandGo ''go''" "suffix SubcommandGo (pre @ ''go'')"
  "\<not> suffix SubcommandGo ''remix''" "\<not> suffix SubcommandGo ''version''"
  by (simp_all add: HasSuffix_iff_suffix [symmetric] HasSuffix_def SubcommandGo_def)

lemma succeeding_keeps_phase: "keeps_phase (demo_handlers succeeding h)"
  by (simp add: keeps_phase_def demo_handlers_def succeeding_def)

text \<open>
  C3. For every argument vector with an argument after the tool's name, \<open>initEnv\<close> does
  not panic and sets the run phase from the text of that first argument alone: to
  Preprocess if it ends with the name of the \<^verbatim>\<open>go\<close> subcommand, to Instrument if it is
  the name of the \<^verbatim>\<open>remix\<close> subcommand, and it leaves the phase as it was otherwise. This
  is the phase of the world that the configuration handler receives (which it does in
  the phases Preprocess and Instrument when the workspace was prepared) and of the world
  that \<open>initEnv\<close> returns otherwise; so it is the phase after \<open>initEnv\<close> whenever the
  handler leaves the phase alone. In particular the arguments \<^verbatim>\<open>go build\<close> give Preprocess,
  \<^verbatim>\<open>remix\<close> gives Instrument, \<^verbatim>\<open>version\<close> leaves the phase Unset in a fresh process, and
  any first argument that merely ends in \<^verbatim>\<open>go\<close> gives Preprocess.
\<close>

theorem initEnv_sets_phase:
  "(2 \<le> length (Args env)
      \<and> p = (if suffix SubcommandGo (Args env ! 1) then PPreprocess
              else if Args env ! 1 = SubcommandRemix then PInstrument else rp w)
    \<longrightarrow> (\<exists>r w2. initEnv env hs w = Inr r \<and> rp w2 = p
           \<and> (r = InitConfig hs w2 \<and> (p = PPreprocess \<or> p = PInstrument)
               \<or> snd r = w2 \<and> (fst r \<noteq> None \<or> p \<noteq> PPreprocess \<and> p \<noteq> PInstrument))
           \<and> (keeps_phase hs \<longrightarrow> rp (snd r) = p)))
   \<and> (Args env = [tool, ''go'', ''build''] \<and> keeps_phase hs
        \<longrightarrow> (\<exists>r. initEnv env hs w = Inr r \<and> rp (snd r) = PPreprocess))
   \<and> (Args env = [tool, ''remix''] \<and> keeps_phase hs
        \<longrightarrow> (\<exists>r. initEnv env hs w = Inr r \<and> rp (snd r) = PInstrument))
   \<and> (Args env = [tool, ''version''] \<and> rp w = PUnset
        \<longrightarrow> (\<exists>r. initEnv env hs w = Inr r \<and> rp (snd r) = PUnset))
   \<and> (Args env = tool # (pre @ ''go'') # rest \<and> keeps_phase hs
        \<longrightarrow> (\<exists>r. initEnv env hs w = Inr r \<and> rp (snd r) = PPreprocess))"
proof (intro conjI impI)
  assume a: "2 \<le> length (Args env)
      \<and> p = (if suffix SubcommandGo (Args env ! 1) then PPreprocess
              else if Args env ! 1 = SubcommandRemix then PInstrument else rp w)"
  then show "\<exists>r w2. initEnv env hs w = Inr r \<and> rp w2 = p
           \<and> (r = InitConfig hs w2 \<and> (p = PPreprocess \<or> p = PInstrument)
               \<or> snd r = w2 \<and> (fst r \<noteq> None \<or> p \<noteq> PPreprocess \<and> p \<noteq> PInstrument))
           \<and> (keeps_phase hs \<longrightarrow> rp (snd r) = p)"
    using initEnv_phase [of env p w hs] by simp
next
  assume a: "Args env = [tool, ''go'', ''build''] \<and> keeps_phase hs"
  then have "2 \<le> length (Args env)"
    and "PPreprocess = (if suffix SubcommandGo (Args env ! 1) then PPreprocess
              else if Args env ! 1 = SubcommandRemix then PInstrument else rp w)"
    by (simp_all add: suffix_go)
  from initEnv_phase [OF this, of hs] a
  show "\<exists>r. initEnv env hs w = Inr r \<and> rp (snd r) = PPreprocess" by blast
next
  assume a: "Args env = [tool, ''remix''] \<and> keeps_phase hs"
  then have "2 \<le> length (Args env)"
    and "PInstrument = (if suffix SubcommandGo (Args env ! 1) then PPreprocess
              else if Args env ! 1 = SubcommandRemix then PInstrument else rp w)"
    by (simp_all add: suffix_go SubcommandRemix_def)
  from initEnv_phase [OF this, of hs] a
  show "\<exists>r. initEnv env hs w = Inr r \<and> rp (snd r) = PInstrument" by blast
next
  assume a: "Args env = [tool, ''version''] \<and> rp w = PUnset"
  then have "2 \<le> length (Args env)"
    and "PUnset = (if suffix SubcommandGo (Args env ! 1) then PPreprocess
              else if Args env ! 1 = SubcommandRemix then PInstrument else rp w)"
    by (simp_all add: suffix_go SubcommandRemix_def)
  from initEnv_phase [OF this, of hs] obtain r w2
    where r: "initEnv env hs w = Inr r" "rp w2 = PUnset"
      "r = InitConfig hs w2 \<and> (PUnset = PPreprocess \<or> PUnset = PInstrument)
        \<or> snd r = w2 \<and> (fst r \<noteq> None \<or> PUnset \<noteq> PPreprocess \<and> PUnset \<noteq> PInstrument)"
    by blast
  then have "snd r = w2" by simp
  with r show "\<exists>r. initEnv env hs w = Inr r \<and> rp (snd r) = PUnset" by blast
next
  assume a: "Args env = tool # (pre @ ''go'') # rest \<and> keeps_phase hs"
  then have "2 \<le> length (Args env)"
    and "PPreprocess = (if suffix SubcommandGo (Args env ! 1) then PPreprocess
              else if Args env ! 1 = SubcommandRemix then PInstrument else rp w)"
    by (simp_all add: suffix_go)
  from initEnv_phase [OF this, of hs] a
  show "\<exists>r. initEnv env hs w = Inr r \<and> rp (snd r) = PPreprocess" by blast
qed

text \<open>
  C3 at the runs "otel cargo", "otel go build", "otel remix" and "otel version".
\<close>

theorem initEnv_sets_phase_witness:
  "2 \<le> length (Args (demo_env [''otel'', ''cargo'']))
   \<and> PPreprocess =
        (if suffix SubcommandGo (Args (demo_env [''otel'', ''cargo'']) ! 1) then PPreprocess
         else if Args (demo_env [''otel'', ''cargo'']) ! 1 = SubcommandRemix then PInstrument
         else rp (demo_world (stale_fs False) PUnset))
   \<and> (\<exists>r. initEnv (demo_env [''otel'', ''cargo'']) (demo_handlers succeeding succeeding)
             (demo_world (stale_fs False) PUnset) = Inr r \<and> rp (snd r) = PPreprocess)
   \<and> Args (demo_env [''otel'', ''go'', ''build'']) = [''otel'', ''go'', ''build'']
   \<and> keeps_phase (demo_handlers succeeding succeeding)
   \<and> (\<exists>r. initEnv (demo_env [''otel'', ''go'', ''build'']) (demo_handlers succeeding succeeding)
             (demo_world (stale_fs False) PUnset) = Inr r \<and> rp (snd r) = PPreprocess)
   \<and> Args (demo_env [''otel'', ''remix'']) = [''otel'', ''remix'']
   \<and> (\<exists>r. initEnv (demo_env [''otel'', ''remix'']) (demo_handlers succeeding succeeding)
             (demo_world (stale_fs False) PUnset) = Inr r \<and> rp (snd r) = PInstrument)
   \<and> Args (demo_env [''otel'', ''version'']) = [''otel'', ''version'']
   \<and> rp (demo_world (stale_fs False) PUnset) = PUnset
   \<and> (\<exists>r. initEnv (demo_env [''otel'', ''version'']) (demo_handlers succeeding succeeding)
             (demo_world (stale_fs False) PUnset) = Inr r \<and> rp (snd r) = PUnset)"
proof -
  let ?hs = "demo_handlers succeeding succeeding"
  let ?w = "demo_world (stale_fs False) PUnset"
  let ?e0 = "demo_env [''otel'', ''cargo'']"
  have k: "keeps_phase ?hs" by (rule succeeding_keeps_phase)
  have l0: "2 \<le> length (Args ?e0)" by (simp add: demo_env_def)
  have c0: "suffix SubcommandGo (Args ?e0 ! 1)"
    by (simp add: demo_env_def HasSuffix_iff_suffix [symmetric] HasSuffix_def SubcommandGo_def)
  have p0: "PPreprocess =
        (if suffix SubcommandGo (Args ?e0 ! 1) then PPreprocess
         else if Args ?e0 ! 1 = SubcommandRemix then PInstrument else rp ?w)"
    using c0 by (rule if_P [symmetric])
  from initEnv_sets_phase [where env = ?e0 and p = PPreprocess and hs = ?hs and w = ?w,
      THEN conjunct1, THEN mp, OF conjI [OF l0 p0]]
  obtain r w2 where r: "initEnv ?e0 ?hs ?w = Inr r"
    and kp: "keeps_phase ?hs \<longrightarrow> rp (snd r) = PPreprocess"
    by (elim exE conjE)
  have "rp (snd r) = PPreprocess" by (rule kp [THEN mp, OF k])
  with r have t0: "\<exists>r. initEnv ?e0 ?hs ?w = Inr r \<and> rp (snd r) = PPreprocess"
    by (intro exI [of _ r] conjI)
  have a1: "Args (demo_env [''otel'', ''go'', ''build'']) = [''otel'', ''go'', ''build'']"
    by (simp add: demo_env_def)
  have a2: "Args (demo_env [''otel'', ''remix'']) = [''otel'', ''remix'']"
    by (simp add: demo_env_def)
  have a3: "Args (demo_env [''otel'', ''version'']) = [''otel'', ''version'']"
    by (simp add: demo_env_def)
  have u: "rp ?w = PUnset" by (simp add: demo_world_def)
  note t1 = initEnv_sets_phase [where env = "demo_env [''otel'', ''go'', ''build'']"
      and tool = "''otel''" and hs = ?hs and w = ?w,
      THEN conjunct2, THEN conjunct1, THEN mp, OF conjI [OF a1 k]]
  note t2 = initEnv_sets_phase [where env = "demo_env [''otel'', ''remix'']"
      and tool = "''otel''" and hs = ?hs and w = ?w,
      THEN conjunct2, THEN conjunct2, THEN conjunct1, THEN mp, OF conjI [OF a2 k]]
  note t3 = initEnv_sets_phase [where env = "demo_env [''otel'', ''version'']"
      and tool = "''otel''" and hs = ?hs and w = ?w,
      THEN conjunct2, THEN conjunct2, THEN conjunct2, THEN conjunct1, THEN mp, OF conjI [OF a3 u]]
  from l0 p0 t0 a1 k t1 a2 t2 a3 u t3 show ?thesis by (intro conjI)
qed

section \<open>Preparing the workspace\<close>

lemma not_prefix_snoc_of_prefix: "prefix q r \<Longrightarrow> \<not> prefix (r @ [s]) q"
  by (auto dest!: prefix_length_le)

lemma plain_RemoveAll_removed: "plain_RemoveAll p f = (None, f') \<Longrightarrow> removed f p f'"
  by (auto simp: plain_RemoveAll_def removed_def Let_def split: if_splits)

lemma plain_MkdirAll_made: "plain_MkdirAll p f = (None, f') \<Longrightarrow> made f p f'"
proof -
  assume a: "plain_MkdirAll p f = (None, f')"
  let ?along = "filter (\<lambda>q. q \<noteq> []) (prefixes p)"
  show "made f p f'"
  proof (cases "list_all (\<lambda>q. nodes f q = Some Dir) ?along")
    case True
    with a have "f' = f" by (simp add: plain_MkdirAll_def)
    with True show ?thesis by (auto simp: made_def list_all_iff)
  next
    case False
    with a have nofile: "\<not> list_ex (\<lambda>q. nodes f q = Some File) ?along"
      and f': "f' = f\<lparr>nodes := (\<lambda>q. if q \<in> set ?along \<and> nodes f q = None then Some Dir
                                    else nodes f q)\<rparr>"
      by (auto simp: plain_MkdirAll_def Let_def split: if_splits)
    have "nodes f q = None \<or> nodes f q = Some Dir" if "q \<noteq> []" "prefix q p" for q
    proof (cases "nodes f q")
      case None
      then show ?thesis by simp
    next
      case (Some n)
      from nofile that have "nodes f q \<noteq> Some File" by (auto simp: list_ex_iff)
      with Some show ?thesis by (cases n) simp_all
    qed
    then have "nodes f' q = (if q \<noteq> [] \<and> prefix q p then Some Dir else nodes f q)" for q
      unfolding f' by (cases "q \<noteq> [] \<and> prefix q p") force+
    then show ?thesis by (simp add: made_def)
  qed
qed

lemma plain_os_contract:
  "MkdirAll env = plain_MkdirAll \<Longrightarrow> RemoveAll env = plain_RemoveAll \<Longrightarrow> os_contract env"
  by (simp add: os_contract_def plain_RemoveAll_removed plain_MkdirAll_made)

lemma demo_os_contract: "os_contract (demo_env argv)"
  by (rule plain_os_contract) (simp_all add: demo_env_def)

lemma recreate_nodes:
  assumes "os_contract env" and "recreate_ok env s f"
  shows "nodes (recreate env s f) q =
           (if q \<noteq> [] \<and> prefix q (TempBuildDir env @ [s]) then Some Dir
            else if prefix (TempBuildDir env @ [s]) q then None
            else nodes f q)"
proof -
  let ?p = "TempBuildDir env @ [s]"
  obtain e1 f1 where r: "RemoveAll env ?p f = (e1, f1)" by (cases "RemoveAll env ?p f")
  obtain e2 f2 where m: "MkdirAll env ?p f1 = (e2, f2)" by (cases "MkdirAll env ?p f1")
  from assms(2) r m have "e1 = None" "e2 = None"
    by (simp_all add: recreate_ok_def GetTempBuildDirWith_def)
  with r m assms(1) have "removed f ?p f1" "made f1 ?p f2"
    by (auto simp: os_contract_def)
  moreover have "recreate env s f = f2"
    by (simp add: recreate_def GetTempBuildDirWith_def r m)
  ultimately show ?thesis by (simp add: removed_def made_def)
qed

lemma recreate_empty_dir:
  assumes "os_contract env" and "recreate_ok env s f"
  shows "empty_dir (recreate env s f) (GetTempBuildDirWith env s)"
  by (auto simp: empty_dir_def GetTempBuildDirWith_def recreate_nodes [OF assms] strict_prefix_def
        not_prefix_snoc_of_prefix)

lemma recreate_keeps_empty_dir:
  assumes "os_contract env" and "recreate_ok env s f"
    and "empty_dir f (GetTempBuildDirWith env t)"
  shows "empty_dir (recreate env s f) (GetTempBuildDirWith env t)"
proof (cases "s = t")
  case True
  then show ?thesis using recreate_empty_dir [OF assms(1,2)] by simp
next
  case False
  let ?r = "TempBuildDir env"
  have below: "\<not> prefix q (?r @ [s])" if "prefix (?r @ [t]) q" "q \<noteq> ?r @ [t]" for q
  proof
    assume "prefix q (?r @ [s])"
    then have "length q \<le> Suc (length ?r)" by (auto dest: prefix_length_le)
    moreover from that(1) have "Suc (length ?r) \<le> length q" by (auto dest: prefix_length_le)
    ultimately have "length q = length (?r @ [t])" by simp
    with that(1) have "q = ?r @ [t]" by (auto simp: prefix_def)
    with that(2) show False by simp
  qed
  from False assms(3) show ?thesis
    using below
    by (auto simp: empty_dir_def GetTempBuildDirWith_def recreate_nodes [OF assms(1,2)]
          strict_prefix_def dest: prefix_order.trans)
qed

lemma recreate_root_is_dir:
  assumes "os_contract env" and "recreate_ok env s f"
  shows "is_dir (recreate env s f) (TempBuildDir env)"
  by (simp add: is_dir_def recreate_nodes [OF assms])

lemma initTempDir_prepares:
  assumes "rp w \<noteq> PInstrument" and "os_contract env" and "calls_succeed env (fsys w)"
  shows "\<exists>f. initTempDir env w = (None, w\<lparr>fsys := f\<rparr>) \<and> workspace_ready env f"
proof -
  let ?r = "TempBuildDir env"
  let ?f1 = "if PathNotExists (fsys w) ?r then snd (MkdirAll env ?r (fsys w)) else fsys w"
  let ?f2 = "recreate env (PreprocessDir env) ?f1"
  let ?f3 = "recreate env (InstrumentDir env) ?f2"
  from assms(3) have root: "PathNotExists (fsys w) ?r \<longrightarrow> fst (MkdirAll env ?r (fsys w)) = None"
    and ok1: "recreate_ok env (PreprocessDir env) ?f1"
    and ok2: "recreate_ok env (InstrumentDir env) ?f2"
    by (simp_all add: calls_succeed_def Let_def)
  have "(if PathNotExists (fsys w) ?r then MkdirAll env ?r (fsys w) else (None, fsys w)) = (None, ?f1)"
    using root by (cases "MkdirAll env ?r (fsys w)") auto
  with assms(1) have run: "initTempDir env w = (None, w\<lparr>fsys := ?f3\<rparr>)"
    by (simp add: initTempDir_def)
  have e1: "empty_dir ?f2 (GetTempBuildDirWith env (PreprocessDir env))"
    by (rule recreate_empty_dir [OF assms(2) ok1])
  have "empty_dir ?f3 (GetTempBuildDirWith env (PreprocessDir env))"
    by (rule recreate_keeps_empty_dir [OF assms(2) ok2 e1])
  moreover have "empty_dir ?f3 (GetTempBuildDirWith env (InstrumentDir env))"
    by (rule recreate_empty_dir [OF assms(2) ok2])
  moreover have "is_dir ?f3 ?r" by (rule recreate_root_is_dir [OF assms(2) ok2])
  ultimately have "workspace_ready env ?f3" by (simp add: workspace_ready_def)
  with run show ?thesis by blast
qed

lemma initTempDir_error_iff:
  "rp w \<noteq> PInstrument \<Longrightarrow>
     fst (initTempDir env w) \<noteq> None \<longleftrightarrow>
       PathNotExists (fsys w) (TempBuildDir env)
       \<and> fst (MkdirAll env (TempBuildDir env) (fsys w)) \<noteq> None"
  by (cases "MkdirAll env (TempBuildDir env) (fsys w)")
     (auto simp: initTempDir_def New_def split: option.splits)

lemma stale_readonly_run:
  "initTempDir (demo_env argv) (demo_world (stale_fs True) PPreprocess) =
     (None, demo_world (stale_fs True) PPreprocess)"
  by (simp add: initTempDir_def demo_env_def demo_world_def stale_fs_def stale_nodes_def
      PathNotExists_def recreate_def plain_RemoveAll_def plain_MkdirAll_def GetTempBuildDirWith_def)

lemma stale_readonly_not_ready:
  "\<not> workspace_ready (demo_env argv) (stale_fs True)"
  by (simp add: workspace_ready_def empty_dir_def GetTempBuildDirWith_def demo_env_def
        stale_fs_def stale_nodes_def)

lemma stale_writable_calls_succeed: "calls_succeed (demo_env argv) (stale_fs False)"
  by (simp add: calls_succeed_def recreate_ok_def recreate_def demo_env_def stale_fs_def
        stale_nodes_def PathNotExists_def GetTempBuildDirWith_def plain_RemoveAll_def
        plain_MkdirAll_def)

lemma fresh_writable_calls_succeed: "calls_succeed (demo_env argv) (fresh_fs False)"
  by (simp add: calls_succeed_def recreate_ok_def recreate_def demo_env_def fresh_fs_def
        PathNotExists_def GetTempBuildDirWith_def plain_RemoveAll_def plain_MkdirAll_def)

text \<open>
  C4. In the Instrument phase \<open>initTempDir\<close> returns nil and leaves the whole world, the
  file system included, exactly as it was.
\<close>

theorem initTempDir_Instrument_noop:
  "rp w = PInstrument \<Longrightarrow> initTempDir env w = (None, w)"
  by (simp add: initTempDir_def)

text \<open>
  C4 at a workspace that holds leftovers: they stay.
\<close>

theorem initTempDir_Instrument_noop_witness:
  "rp (demo_world (stale_fs False) PInstrument) = PInstrument
   \<and> initTempDir (demo_env [''otel'', ''remix'']) (demo_world (stale_fs False) PInstrument) =
       (None, demo_world (stale_fs False) PInstrument)"
proof -
  have p: "rp (demo_world (stale_fs False) PInstrument) = PInstrument"
    by (simp add: demo_world_def)
  from p initTempDir_Instrument_noop [OF p] show ?thesis by (rule conjI)
qed

text \<open>
  C5, as the code has it. In a phase other than Instrument, and provided the calls of
  \<^verbatim>\<open>os.MkdirAll\<close> and \<^verbatim>\<open>os.RemoveAll\<close> that \<open>initTempDir\<close> makes succeed (it discards the
  results of those on the subdirectories), \<open>initTempDir\<close> returns nil and leaves the
  workspace ready: the root is a directory and each of the two named subdirectories is a
  directory with nothing below it. The same holds for a second call, on whatever the
  file system has become in between (files written into the workspace, say), provided
  its calls succeed too. The operating system enters through what a successful call has
  done (\<open>os_contract\<close>), not through a particular model of when a call fails.
\<close>

theorem initTempDir_recreates_workspace:
  assumes "rp w \<noteq> PInstrument" and "os_contract env" and "calls_succeed env (fsys w)"
  shows "\<exists>f1. initTempDir env w = (None, w\<lparr>fsys := f1\<rparr>)
           \<and> workspace_ready env f1
           \<and> (\<forall>f2. calls_succeed env f2 \<longrightarrow>
                 (\<exists>f3. initTempDir env (w\<lparr>fsys := f2\<rparr>) = (None, w\<lparr>fsys := f3\<rparr>)
                       \<and> workspace_ready env f3))"
proof -
  from initTempDir_prepares [OF assms] obtain f1
    where run: "initTempDir env w = (None, w\<lparr>fsys := f1\<rparr>)"
      and ready: "workspace_ready env f1"
    by blast
  have later: "\<exists>f3. initTempDir env (w\<lparr>fsys := f2\<rparr>) = (None, w\<lparr>fsys := f3\<rparr>)
                  \<and> workspace_ready env f3" if c: "calls_succeed env f2" for f2
  proof -
    have "rp (w\<lparr>fsys := f2\<rparr>) \<noteq> PInstrument" using assms(1) by simp
    moreover have "calls_succeed env (fsys (w\<lparr>fsys := f2\<rparr>))" using c by simp
    ultimately obtain f3
      where "initTempDir env (w\<lparr>fsys := f2\<rparr>) = (None, w\<lparr>fsys := f2\<rparr>\<lparr>fsys := f3\<rparr>)"
        and "workspace_ready env f3"
      using initTempDir_prepares [OF _ assms(2)] by blast
    then show ?thesis by auto
  qed
  from run ready later show ?thesis by blast
qed

text \<open>
  C5 at a writable file system whose preprocess directory holds an object file of an
  earlier build.
\<close>

theorem initTempDir_recreates_workspace_witness:
  "rp (demo_world (stale_fs False) PPreprocess) \<noteq> PInstrument
   \<and> os_contract (demo_env [''otel'', ''go'', ''build''])
   \<and> calls_succeed (demo_env [''otel'', ''go'', ''build'']) (fsys (demo_world (stale_fs False) PPreprocess))
   \<and> (\<exists>f1. initTempDir (demo_env [''otel'', ''go'', ''build'']) (demo_world (stale_fs False) PPreprocess)
              = (None, demo_world (stale_fs False) PPreprocess\<lparr>fsys := f1\<rparr>)
          \<and> workspace_ready (demo_env [''otel'', ''go'', ''build'']) f1)"
proof -
  let ?env = "demo_env [''otel'', ''go'', ''build'']"
  let ?w = "demo_world (stale_fs False) PPreprocess"
  have p: "rp ?w \<noteq> PInstrument" by (simp add: demo_world_def)
  have o: "os_contract ?env" by (rule demo_os_contract)
  have c: "calls_succeed ?env (fsys ?w)"
    using stale_writable_calls_succeed by (simp add: demo_world_def)
  from initTempDir_recreates_workspace [OF p o c] obtain f1
    where r: "initTempDir ?env ?w = (None, ?w\<lparr>fsys := f1\<rparr>)" "workspace_ready ?env f1"
    by (elim exE conjE)
  have "\<exists>f1. initTempDir ?env ?w = (None, ?w\<lparr>fsys := f1\<rparr>) \<and> workspace_ready ?env f1"
    by (intro exI [of _ f1] conjI) (rule r)+
  with p o c show ?thesis by (intro conjI)
qed

text \<open>
  Without the proviso the statement fails. On a read-only file system that holds the
  leftovers of an earlier build, \<open>initTempDir\<close> in the Preprocess phase returns nil, yet
  the old object file is still in the preprocess directory and the instrument directory
  does not exist.
\<close>

theorem initTempDir_silent_failure_counterexample:
  "rp (demo_world (stale_fs True) PPreprocess) \<noteq> PInstrument
   \<and> fst (initTempDir (demo_env [''otel'', ''go'', ''build'']) (demo_world (stale_fs True) PPreprocess)) = None
   \<and> nodes (fsys (snd (initTempDir (demo_env [''otel'', ''go'', ''build''])
                          (demo_world (stale_fs True) PPreprocess))))
        [''.otel-build'', ''preprocess'', ''old.o''] = Some File
   \<and> nodes (fsys (snd (initTempDir (demo_env [''otel'', ''go'', ''build''])
                          (demo_world (stale_fs True) PPreprocess))))
        [''.otel-build'', ''instrument''] = None"
  unfolding stale_readonly_run
  by (simp add: demo_world_def stale_fs_def stale_nodes_def)

text \<open>
  C10. In every phase other than Instrument, \<open>initTempDir\<close> returns an error exactly when
  the root does not exist and making it fails; what removing and making the two
  subdirectories gave plays no part. Hence a nil result does not tell that the workspace
  is ready: there is a run that returns nil and leaves it not ready.
\<close>

theorem initTempDir_discards_subdir_results:
  "(rp w \<noteq> PInstrument \<longrightarrow>
      (fst (initTempDir env w) \<noteq> None \<longleftrightarrow>
         PathNotExists (fsys w) (TempBuildDir env)
         \<and> fst (MkdirAll env (TempBuildDir env) (fsys w)) \<noteq> None))
   \<and> (\<exists>env' w'. rp w' \<noteq> PInstrument \<and> fst (initTempDir env' w') = None
          \<and> \<not> workspace_ready env' (fsys (snd (initTempDir env' w'))))"
proof -
  let ?env = "demo_env []"
  let ?w = "demo_world (stale_fs True) PPreprocess"
  have "rp ?w \<noteq> PInstrument" by (simp add: demo_world_def)
  moreover have "fst (initTempDir ?env ?w) = None" by (simp add: stale_readonly_run)
  moreover have "fsys (snd (initTempDir ?env ?w)) = stale_fs True"
    unfolding stale_readonly_run by (simp add: demo_world_def)
  then have "\<not> workspace_ready ?env (fsys (snd (initTempDir ?env ?w)))"
    using stale_readonly_not_ready [of "[]"] by simp
  ultimately have "\<exists>env' w'. rp w' \<noteq> PInstrument \<and> fst (initTempDir env' w') = None
          \<and> \<not> workspace_ready env' (fsys (snd (initTempDir env' w')))"
    by blast
  with initTempDir_error_iff [of w env] show ?thesis by blast
qed

text \<open>
  C10 on a read-only file system without a workspace: the root cannot be made, and the
  error is returned.
\<close>

theorem initTempDir_discards_subdir_results_witness:
  "rp (demo_world (fresh_fs True) PUnset) \<noteq> PInstrument
   \<and> PathNotExists (fsys (demo_world (fresh_fs True) PUnset)) (TempBuildDir (demo_env [''otel'', ''version'']))
   \<and> fst (MkdirAll (demo_env [''otel'', ''version'']) (TempBuildDir (demo_env [''otel'', ''version'']))
             (fsys (demo_world (fresh_fs True) PUnset))) \<noteq> None
   \<and> fst (initTempDir (demo_env [''otel'', ''version'']) (demo_world (fresh_fs True) PUnset)) \<noteq> None"
proof -
  let ?env = "demo_env [''otel'', ''version'']"
  let ?w = "demo_world (fresh_fs True) PUnset"
  have p: "rp ?w \<noteq> PInstrument" by (simp add: demo_world_def)
  have a: "PathNotExists (fsys ?w) (TempBuildDir ?env)"
    by (simp add: PathNotExists_def demo_world_def demo_env_def fresh_fs_def)
  have b: "fst (MkdirAll ?env (TempBuildDir ?env) (fsys ?w)) \<noteq> None"
    by (simp add: plain_MkdirAll_def demo_world_def demo_env_def fresh_fs_def)
  have "fst (initTempDir ?env ?w) \<noteq> None"
    using initTempDir_discards_subdir_results [of ?w ?env, THEN conjunct1, THEN mp, OF p] a b
    by (rule_tac iffD2) (assumption, rule conjI)
  with p a b show ?thesis by (intro conjI)
qed

section \<open>The fatal report\<close>

lemma Sprintf_field_command: "Sprintf_field ''command'' v = ''command    : '' @ v @ ''\<newline>''"
  by (simp add: Sprintf_field_def pad_right_def rune_width_def eval_nat_numeral)

lemma Sprintf_field_errorLog: "Sprintf_field ''errorLog'' v = ''errorLog   : '' @ v @ ''\<newline>''"
  by (simp add: Sprintf_field_def pad_right_def rune_width_def eval_nat_numeral)

lemma Sprintf_field_workDir: "Sprintf_field ''workDir'' v = ''workDir    : '' @ v @ ''\<newline>''"
  by (simp add: Sprintf_field_def pad_right_def rune_width_def eval_nat_numeral)

lemma Sprintf_field_toolchain: "Sprintf_field ''toolchain'' v = ''toolchain  : '' @ v @ ''\<newline>''"
  by (simp add: Sprintf_field_def pad_right_def rune_width_def eval_nat_numeral)

lemma Sprintf_field_stage: "Sprintf_field ''stage'' v = ''stage      : '' @ v @ ''\<newline>''"
  by (simp add: Sprintf_field_def pad_right_def rune_width_def eval_nat_numeral)

lemma fatal_Foreign:
  "fatal env h ks (Foreign m) = Inr (environment_block env @ ''\<newline>===== Fatal Error ======\<newline>'')"
  by (simp add: fatal_def environment_block_def Sprintf_field_command Sprintf_field_errorLog
        Sprintf_field_workDir Sprintf_field_toolchain)

lemma fatal_Plentiful:
  "a < length h \<Longrightarrow> fatal env h ks (Plentiful a) =
     Inr (environment_block env @ range_lines (details_of h a) ks @
          ''\<newline>===== Fatal Error ======\<newline>'' @ ''\<newline>'' @ Reason (h ! a))"
  by (cases ks) (simp_all add: fatal_def deref_def environment_block_def Sprintf_field_command
        Sprintf_field_errorLog Sprintf_field_workDir Sprintf_field_toolchain range_lines_def)

lemma range_lines_entries:
  "set ks \<subseteq> dom m \<Longrightarrow> range_lines m ks = concat (map (\<lambda>k. Sprintf_field k (the (m k))) ks)"
  by (induction ks) (auto simp: range_lines_def)

lemma environment_block_demo:
  "environment_block (demo_env [''otel'', ''go'', ''build'']) =
     ''===== Environments =====\<newline>'' @
     ''command    : otel go build\<newline>'' @
     ''errorLog   : .otel-build/debug.log\<newline>'' @
     ''workDir    : /home/dev/app\<newline>'' @
     ''toolchain  : linux/amd64, go1.22.0, v0.1.0\<newline>''"
  by (simp add: environment_block_def demo_env_def)

text \<open>
  C1, as the code has it. The report consists, in this order, of the environment block
  (the command line, the log's path, the working directory and the toolchain line, each
  behind a label of fixed width); for a DiagnosticError, one label and value line for
  each entry of its details, in the order the map is visited; the heading of the fatal
  error section; and, for a DiagnosticError, an empty line and the reason. The number of
  detail lines is the number of entries, and the report does not depend on the captured
  backtrace. For an error that is not a DiagnosticError nothing follows the heading of
  the section.
\<close>

theorem fatal_report_structure:
  "(a < length h \<and> range_order (details_of h a) ks \<longrightarrow>
      fatal env h ks (Plentiful a) =
        Inr (environment_block env
             @ concat (map (\<lambda>k. Sprintf_field k (the (details_of h a k))) ks)
             @ ''\<newline>===== Fatal Error ======\<newline>''
             @ ''\<newline>'' @ Reason (h ! a))
      \<and> length ks = card (dom (details_of h a))
      \<and> fatal env (h[a := (h ! a)\<lparr>Cause := c\<rparr>]) ks (Plentiful a) = fatal env h ks (Plentiful a))
   \<and> fatal env h ks (Foreign m) =
        Inr (environment_block env @ ''\<newline>===== Fatal Error ======\<newline>'')"
proof -
  have "fatal env h ks (Plentiful a) =
        Inr (environment_block env
             @ concat (map (\<lambda>k. Sprintf_field k (the (details_of h a k))) ks)
             @ ''\<newline>===== Fatal Error ======\<newline>''
             @ ''\<newline>'' @ Reason (h ! a))"
    and "length ks = card (dom (details_of h a))"
    and "fatal env (h[a := (h ! a)\<lparr>Cause := c\<rparr>]) ks (Plentiful a) = fatal env h ks (Plentiful a)"
    if len: "a < length h" and ord: "range_order (details_of h a) ks"
  proof -
    from ord have sub: "set ks \<subseteq> dom (details_of h a)" by (simp add: range_order_def)
    show "fatal env h ks (Plentiful a) =
        Inr (environment_block env
             @ concat (map (\<lambda>k. Sprintf_field k (the (details_of h a k))) ks)
             @ ''\<newline>===== Fatal Error ======\<newline>''
             @ ''\<newline>'' @ Reason (h ! a))"
      by (simp add: fatal_Plentiful [OF len] range_lines_entries [OF sub])
    from ord show "length ks = card (dom (details_of h a))"
      by (metis distinct_card range_order_def)
    have "details_of (h[a := (h ! a)\<lparr>Cause := c\<rparr>]) a = details_of h a"
      using len by (simp add: details_of_def)
    then show "fatal env (h[a := (h ! a)\<lparr>Cause := c\<rparr>]) ks (Plentiful a) = fatal env h ks (Plentiful a)"
      using len by (simp add: fatal_Plentiful)
  qed
  then show ?thesis using fatal_Foreign by blast
qed

text \<open>
  C1 at the error "link error" with the detail stage = link, reported for the command
  line "otel go build".
\<close>

theorem fatal_report_structure_witness:
  "0 < length link_error \<and> range_order (details_of link_error 0) [''stage'']
   \<and> fatal (demo_env [''otel'', ''go'', ''build'']) link_error [''stage''] (Plentiful 0) =
       Inr (''===== Environments =====\<newline>'' @
            ''command    : otel go build\<newline>'' @
            ''errorLog   : .otel-build/debug.log\<newline>'' @
            ''workDir    : /home/dev/app\<newline>'' @
            ''toolchain  : linux/amd64, go1.22.0, v0.1.0\<newline>'' @
            ''stage      : link\<newline>'' @
            ''\<newline>===== Fatal Error ======\<newline>'' @
            ''\<newline>link error'')"
proof -
  have len: "0 < length link_error" by (simp add: link_error_def)
  have ord: "range_order (details_of link_error 0) [''stage'']"
    by (simp add: range_order_def details_of_def link_error_def)
  have d: "details_of link_error 0 ''stage'' = Some ''link''"
    by (simp add: details_of_def link_error_def)
  have r: "Reason (link_error ! 0) = ''link error''" by (simp add: link_error_def)
  from fatal_report_structure [of 0 link_error "[''stage'']" "demo_env [''otel'', ''go'', ''build'']",
        THEN conjunct1, THEN mp, OF conjI [OF len ord], THEN conjunct1]
  have "fatal (demo_env [''otel'', ''go'', ''build'']) link_error [''stage''] (Plentiful 0) =
       Inr (''===== Environments =====\<newline>'' @
            ''command    : otel go build\<newline>'' @
            ''errorLog   : .otel-build/debug.log\<newline>'' @
            ''workDir    : /home/dev/app\<newline>'' @
            ''toolchain  : linux/amd64, go1.22.0, v0.1.0\<newline>'' @
            ''stage      : link\<newline>'' @
            ''\<newline>===== Fatal Error ======\<newline>'' @
            ''\<newline>link error'')"
    by (simp add: environment_block_demo d r Sprintf_field_stage)
  with len ord show ?thesis by (intro conjI)
qed

text \<open>
  The reason of an error that is not a DiagnosticError is not reported: for a foreign
  error whose text is "link error", the report ends with the heading of the fatal error
  section and is not the environment block followed by the section with the reason.
\<close>

theorem fatal_foreign_reason_counterexample:
  "fatal (demo_env [''otel'', ''go'', ''build'']) [] [] (Foreign ''link error'') =
       Inr (''===== Environments =====\<newline>'' @
            ''command    : otel go build\<newline>'' @
            ''errorLog   : .otel-build/debug.log\<newline>'' @
            ''workDir    : /home/dev/app\<newline>'' @
            ''toolchain  : linux/amd64, go1.22.0, v0.1.0\<newline>'' @
            ''\<newline>===== Fatal Error ======\<newline>'')
   \<and> fatal (demo_env [''otel'', ''go'', ''build'']) [] [] (Foreign ''link error'') \<noteq>
       Inr (''===== Environments =====\<newline>'' @
            ''command    : otel go build\<newline>'' @
            ''errorLog   : .otel-build/debug.log\<newline>'' @
            ''workDir    : /home/dev/app\<newline>'' @
            ''toolchain  : linux/amd64, go1.22.0, v0.1.0\<newline>'' @
            ''\<newline>===== Fatal Error ======\<newline>'' @
            ''\<newline>link error'')"
  by (simp add: fatal_Foreign environment_block_demo)

text \<open>
  C9. For an error that is not a DiagnosticError the report is the environment block
  followed by the heading of the fatal error section and nothing else: no detail line and
  no text of the error. The error's text never enters the report, which is the same for
  every such error, whatever its text, the store and the order of visit.
\<close>

theorem fatal_foreign_error_silent:
  "fatal env h ks (Foreign m) =
     Inr (environment_block env @ ''\<newline>===== Fatal Error ======\<newline>'')
   \<and> fatal env h ks (Foreign m) = fatal env h' ks' (Foreign m')"
  by (simp add: fatal_Foreign)

section \<open>The dispatcher\<close>

lemma error_Error_allocated:
  "allocated h err \<Longrightarrow>
     error_Error h err =
       Inr (case err of Plentiful a \<Rightarrow> Reason (h ! a) @ ''\<newline>'' @ Cause (h ! a) | Foreign m \<Rightarrow> m)"
  by (cases err) (simp_all add: error_Error_def PlentifulError_Error_def deref_def)

lemma subcommands_distinct:
  "SubcommandRemix \<noteq> SubcommandVersion" "SubcommandRemix \<noteq> SubcommandSet"
  "SubcommandRemix \<noteq> SubcommandGo"
  by (simp_all add: SubcommandRemix_def SubcommandVersion_def SubcommandSet_def SubcommandGo_def)

lemma main_remix_failure:
  assumes "2 \<le> length (Args env)" and "Args env ! 1 = SubcommandRemix"
    and "initEnv env hs w = Inr (None, w1)"
    and "Instrument hs w1 = (Some err, w2)"
    and "allocated (objects w2) err"
  shows "main env hs ks w =
           (Exit 1, w2\<lparr>stderr := stderr w2
              @ (case err of Plentiful a \<Rightarrow> Reason (objects w2 ! a) @ ''\<newline>'' @ Cause (objects w2 ! a)
                           | Foreign m \<Rightarrow> m)
              @ ''\<newline>''\<rparr>)"
  using assms
  by (simp add: main_def subcommands_distinct error_Error_allocated)

lemma main_usage:
  "length (Args env) < 2 \<Longrightarrow> main env hs ks w = (Exit 0, printUsage env w)"
  by (simp add: main_def)

lemma main_unknown:
  assumes "2 \<le> length (Args env)"
    and "Args env ! 1 \<notin> {SubcommandVersion, SubcommandSet, SubcommandGo, SubcommandRemix}"
  shows "main env hs ks w =
           (case initEnv env hs w of
              Inl p \<Rightarrow> (Panicked p, w)
            | Inr (Some err, w1) \<Rightarrow> report env ks err w1
            | Inr (None, w1) \<Rightarrow> (Exit 0, printUsage env w1))"
  using assms
  by (auto simp: main_def conclude_def split: sum.splits option.splits prod.splits)

lemma initEnv_total:
  "2 \<le> length (Args env) \<Longrightarrow> \<exists>r. initEnv env hs w = Inr r"
  by (auto simp: initEnv_def Let_def split: prod.splits option.splits)

lemma initEnv_phase_kept:
  assumes "2 \<le> length (Args env)" and "determinePhase (Args env ! 1) (rp w) = rp w"
  shows "initEnv env hs w =
           (case initTempDir env w of
              (Some err, w2) \<Rightarrow> Inr (Some err, w2)
            | (None, w2) \<Rightarrow>
                if InPreprocess w2 \<or> InInstrument w2 then Inr (InitConfig hs w2)
                else Inr (None, w2))"
  using assms by (simp add: initEnv_def)

lemma remix_demo_initEnv:
  "initEnv (demo_env [''otel'', ''remix'']) (demo_handlers succeeding h) (demo_world f PUnset) =
     Inr (None, demo_world f PInstrument)"
  by (simp add: initEnv_def demo_env_def demo_handlers_def demo_world_def succeeding_def
        determinePhase_def HasSuffix_def SubcommandGo_def SubcommandRemix_def initTempDir_def
        InInstrument_def InPreprocess_def)

lemma remix_demo_Instrument:
  "Instrument (demo_handlers i (failing ''goroutine 1 [running]'' ''compile failed''))
      (demo_world f PInstrument) =
     (Some (Plentiful 0), demo_world f PInstrument\<lparr>objects := compile_failed\<rparr>)"
  by (simp add: demo_handlers_def failing_def New_def demo_world_def compile_failed_def)

lemma help_demo_phase: "determinePhase ''help'' PUnset = PUnset"
  by (simp add: determinePhase_def HasSuffix_def SubcommandGo_def SubcommandRemix_def)

lemma help_demo_args:
  "2 \<le> length (Args (demo_env [''otel'', ''help'']))"
  "determinePhase (Args (demo_env [''otel'', ''help'']) ! 1) (rp (demo_world f PUnset)) =
     rp (demo_world f PUnset)"
  by (simp_all add: demo_env_def demo_world_def help_demo_phase)

lemma help_demo_initEnv_fails:
  "initEnv (demo_env [''otel'', ''help'']) hs (demo_world (fresh_fs True) PUnset) =
     Inr (Some (Plentiful 0), demo_world (fresh_fs True) PUnset\<lparr>objects := mkdir_failed\<rparr>)"
proof -
  have "initTempDir (demo_env [''otel'', ''help'']) (demo_world (fresh_fs True) PUnset) =
          (Some (Plentiful 0), demo_world (fresh_fs True) PUnset\<lparr>objects := mkdir_failed\<rparr>)"
    by (simp add: initTempDir_def demo_env_def demo_world_def fresh_fs_def PathNotExists_def
          plain_MkdirAll_def New_def mkdir_failed_def)
  then show ?thesis
    by (simp add: initEnv_phase_kept [OF help_demo_args])
qed

lemma help_demo_unknown:
  "Args (demo_env [''otel'', ''help'']) ! 1 \<notin>
     {SubcommandVersion, SubcommandSet, SubcommandGo, SubcommandRemix}"
  by (simp add: demo_env_def SubcommandVersion_def SubcommandSet_def SubcommandGo_def
        SubcommandRemix_def)

lemma help_demo_initEnv_succeeds:
  "\<exists>w1. initEnv (demo_env [''otel'', ''help'']) hs (demo_world (fresh_fs False) PUnset) = Inr (None, w1)"
proof -
  let ?env = "demo_env [''otel'', ''help'']"
  let ?w = "demo_world (fresh_fs False) PUnset"
  have p: "rp ?w \<noteq> PInstrument" by (simp add: demo_world_def)
  have c: "calls_succeed ?env (fsys ?w)"
    using fresh_writable_calls_succeed by (simp add: demo_world_def)
  from initTempDir_prepares [OF p demo_os_contract c] obtain f where
    t: "initTempDir ?env ?w = (None, ?w\<lparr>fsys := f\<rparr>)" by blast
  have q: "rp (?w\<lparr>fsys := f\<rparr>) = PUnset" by (simp add: demo_world_def)
  have "initEnv ?env hs ?w = Inr (None, ?w\<lparr>fsys := f\<rparr>)"
    unfolding initEnv_phase_kept [OF help_demo_args] t
    by (simp add: InPreprocess_def InInstrument_def q)
  then show ?thesis by blast
qed

text \<open>
  C2. When the \<^verbatim>\<open>remix\<close> handler returns an error, \<open>main\<close> appends the error's rendered
  text (for a DiagnosticError the reason, a newline and the backtrace) and a newline to
  the error stream and ends with exit status 1. The run does not end in \<open>LogFatal\<close>, so no
  report is made, and nothing is printed on standard output.
\<close>

theorem remix_failure_bypasses_fatal:
  assumes "2 \<le> length (Args env)" and "Args env ! 1 = SubcommandRemix"
    and "initEnv env hs w = Inr (None, w1)"
    and "Instrument hs w1 = (Some err, w2)"
    and "allocated (objects w2) err"
  shows "main env hs ks w =
           (Exit 1, w2\<lparr>stderr := stderr w2
              @ (case err of Plentiful a \<Rightarrow> Reason (objects w2 ! a) @ ''\<newline>'' @ Cause (objects w2 ! a)
                           | Foreign m \<Rightarrow> m)
              @ ''\<newline>''\<rparr>)
         \<and> (\<forall>message. fst (main env hs ks w) \<noteq> LogFatal message)
         \<and> stdout (snd (main env hs ks w)) = stdout w2"
proof -
  note run = main_remix_failure [OF assms, of ks]
  show ?thesis unfolding run by simp
qed

text \<open>
  C2 at the run "otel remix" whose handler fails with the reason "compile failed".
\<close>

theorem remix_failure_bypasses_fatal_witness:
  "2 \<le> length (Args (demo_env [''otel'', ''remix'']))
   \<and> Args (demo_env [''otel'', ''remix'']) ! 1 = SubcommandRemix
   \<and> initEnv (demo_env [''otel'', ''remix''])
        (demo_handlers succeeding (failing ''goroutine 1 [running]'' ''compile failed''))
        (demo_world (stale_fs False) PUnset) = Inr (None, demo_world (stale_fs False) PInstrument)
   \<and> Instrument (demo_handlers succeeding (failing ''goroutine 1 [running]'' ''compile failed''))
        (demo_world (stale_fs False) PInstrument) =
         (Some (Plentiful 0), demo_world (stale_fs False) PInstrument\<lparr>objects := compile_failed\<rparr>)
   \<and> allocated (objects (demo_world (stale_fs False) PInstrument\<lparr>objects := compile_failed\<rparr>)) (Plentiful 0)
   \<and> main (demo_env [''otel'', ''remix''])
        (demo_handlers succeeding (failing ''goroutine 1 [running]'' ''compile failed'')) []
        (demo_world (stale_fs False) PUnset) =
       (Exit 1, demo_world (stale_fs False) PInstrument
                  \<lparr>objects := compile_failed,
                   stderr := ''compile failed\<newline>goroutine 1 [running]\<newline>''\<rparr>)"
proof -
  let ?env = "demo_env [''otel'', ''remix'']"
  let ?hs = "demo_handlers succeeding (failing ''goroutine 1 [running]'' ''compile failed'')"
  let ?w = "demo_world (stale_fs False) PUnset"
  let ?w1 = "demo_world (stale_fs False) PInstrument"
  let ?w2 = "?w1\<lparr>objects := compile_failed\<rparr>"
  have a: "2 \<le> length (Args ?env)" by (simp add: demo_env_def)
  have b: "Args ?env ! 1 = SubcommandRemix" by (simp add: demo_env_def SubcommandRemix_def)
  have c: "initEnv ?env ?hs ?w = Inr (None, ?w1)" by (rule remix_demo_initEnv)
  have d: "Instrument ?hs ?w1 = (Some (Plentiful 0), ?w2)" by (rule remix_demo_Instrument)
  have e: "allocated (objects ?w2) (Plentiful 0)" by (simp add: compile_failed_def)
  from remix_failure_bypasses_fatal [OF a b c d e, of "[]", THEN conjunct1]
  have "main ?env ?hs [] ?w =
       (Exit 1, ?w1\<lparr>objects := compile_failed,
                     stderr := ''compile failed\<newline>goroutine 1 [running]\<newline>''\<rparr>)"
    by (simp add: compile_failed_def demo_world_def)
  with a b c d e show ?thesis by (intro conjI)
qed

text \<open>
  C8, as the code has it. Without a subcommand, \<open>main\<close> prints the usage text and ends
  with status 0 at once. With a subcommand that is none of \<^verbatim>\<open>version\<close>, \<^verbatim>\<open>set\<close>, \<^verbatim>\<open>go\<close> and
  \<^verbatim>\<open>remix\<close>, \<open>initEnv\<close> runs first: when it succeeds the usage text is printed and the run
  ends with status 0; when it returns an error, the error is reported by \<open>fatal\<close>. The
  usage text printed is the template with the tool's name in place of each \<^verbatim>\<open>{}\<close>.
\<close>

theorem usage_after_initialisation:
  "(length (Args env) < 2 \<longrightarrow> main env hs ks w = (Exit 0, printUsage env w))
   \<and> (2 \<le> length (Args env)
        \<and> Args env ! 1 \<notin> {SubcommandVersion, SubcommandSet, SubcommandGo, SubcommandRemix}
        \<and> initEnv env hs w = Inr (None, w1)
      \<longrightarrow> main env hs ks w = (Exit 0, printUsage env w1))
   \<and> (2 \<le> length (Args env)
        \<and> Args env ! 1 \<notin> {SubcommandVersion, SubcommandSet, SubcommandGo, SubcommandRemix}
        \<and> initEnv env hs w = Inr (Some err, w1)
      \<longrightarrow> main env hs ks w = report env ks err w1)
   \<and> stdout (printUsage env w) = stdout w @ ReplaceAll usage ''{}'' (ToolName env)"
proof (intro conjI impI)
  show "main env hs ks w = (Exit 0, printUsage env w)" if "length (Args env) < 2"
    using that by (rule main_usage)
  show "main env hs ks w = (Exit 0, printUsage env w1)"
    if "2 \<le> length (Args env)
        \<and> Args env ! 1 \<notin> {SubcommandVersion, SubcommandSet, SubcommandGo, SubcommandRemix}
        \<and> initEnv env hs w = Inr (None, w1)"
    using that main_unknown [of env hs ks w] by simp
  show "main env hs ks w = report env ks err w1"
    if "2 \<le> length (Args env)
        \<and> Args env ! 1 \<notin> {SubcommandVersion, SubcommandSet, SubcommandGo, SubcommandRemix}
        \<and> initEnv env hs w = Inr (Some err, w1)"
    using that main_unknown [of env hs ks w] by simp
  show "stdout (printUsage env w) = stdout w @ ReplaceAll usage ''{}'' (ToolName env)"
    by (simp add: printUsage_def)
qed

text \<open>
  C8 at the runs "otel" and "otel help", the latter on a writable and on a read-only
  file system.
\<close>

theorem usage_after_initialisation_witness:
  "length (Args (demo_env [''otel''])) < 2
   \<and> main (demo_env [''otel'']) (demo_handlers succeeding succeeding) [] (demo_world (fresh_fs False) PUnset)
       = (Exit 0, printUsage (demo_env [''otel'']) (demo_world (fresh_fs False) PUnset))
   \<and> 2 \<le> length (Args (demo_env [''otel'', ''help'']))
   \<and> Args (demo_env [''otel'', ''help'']) ! 1 \<notin>
        {SubcommandVersion, SubcommandSet, SubcommandGo, SubcommandRemix}
   \<and> (\<exists>w1. initEnv (demo_env [''otel'', ''help'']) (demo_handlers succeeding succeeding)
               (demo_world (fresh_fs False) PUnset) = Inr (None, w1)
          \<and> main (demo_env [''otel'', ''help'']) (demo_handlers succeeding succeeding) []
               (demo_world (fresh_fs False) PUnset) = (Exit 0, printUsage (demo_env [''otel'', ''help'']) w1))
   \<and> initEnv (demo_env [''otel'', ''help'']) (demo_handlers succeeding succeeding)
        (demo_world (fresh_fs True) PUnset) =
         Inr (Some (Plentiful 0), demo_world (fresh_fs True) PUnset\<lparr>objects := mkdir_failed\<rparr>)
   \<and> main (demo_env [''otel'', ''help'']) (demo_handlers succeeding succeeding) []
        (demo_world (fresh_fs True) PUnset) =
       report (demo_env [''otel'', ''help'']) [] (Plentiful 0)
         (demo_world (fresh_fs True) PUnset\<lparr>objects := mkdir_failed\<rparr>)"
proof -
  let ?hs = "demo_handlers succeeding succeeding"
  let ?e1 = "demo_env [''otel'']"
  let ?e2 = "demo_env [''otel'', ''help'']"
  let ?w = "demo_world (fresh_fs False) PUnset"
  let ?wr = "demo_world (fresh_fs True) PUnset"
  have a: "length (Args ?e1) < 2" by (simp add: demo_env_def)
  have 1: "main ?e1 ?hs [] ?w = (Exit 0, printUsage ?e1 ?w)"
    by (rule usage_after_initialisation [of ?e1 ?hs "[]" ?w, THEN conjunct1, THEN mp, OF a])
  have b: "2 \<le> length (Args ?e2)" by (simp add: demo_env_def)
  note c = help_demo_unknown
  from help_demo_initEnv_succeeds [of ?hs] obtain w1
    where d: "initEnv ?e2 ?hs ?w = Inr (None, w1)" by (elim exE)
  have 2: "main ?e2 ?hs [] ?w = (Exit 0, printUsage ?e2 w1)"
    by (rule usage_after_initialisation [of ?e2 ?hs "[]" ?w w1, THEN conjunct2, THEN conjunct1,
          THEN mp, OF conjI [OF b conjI [OF c d]]])
  have ex: "\<exists>w1. initEnv ?e2 ?hs ?w = Inr (None, w1)
              \<and> main ?e2 ?hs [] ?w = (Exit 0, printUsage ?e2 w1)"
    by (intro exI [of _ w1] conjI) (rule d, rule 2)
  note e = help_demo_initEnv_fails [of ?hs]
  have 3: "main ?e2 ?hs [] ?wr = report ?e2 [] (Plentiful 0) (?wr\<lparr>objects := mkdir_failed\<rparr>)"
    by (rule usage_after_initialisation [of ?e2 ?hs "[]" ?wr
          "?wr\<lparr>objects := mkdir_failed\<rparr>" "Plentiful 0",
          THEN conjunct2, THEN conjunct2, THEN conjunct1,
          THEN mp, OF conjI [OF b conjI [OF c e]]])
  from a 1 b c ex e 3 show ?thesis by (intro conjI)
qed

text \<open>
  An unknown subcommand can end in a fatal report: the run "otel help" on a read-only
  file system without a workspace fails to make the workspace root in \<open>initEnv\<close>, prints
  no usage text and ends in \<open>LogFatal\<close>.
\<close>

theorem unknown_subcommand_fatal_counterexample:
  "Args (demo_env [''otel'', ''help'']) ! 1 \<notin>
        {SubcommandVersion, SubcommandSet, SubcommandGo, SubcommandRemix}
   \<and> main (demo_env [''otel'', ''help'']) (demo_handlers succeeding succeeding) []
        (demo_world (fresh_fs True) PUnset) =
       (LogFatal (''===== Environments =====\<newline>'' @
                  ''command    : otel help\<newline>'' @
                  ''errorLog   : .otel-build/debug.log\<newline>'' @
                  ''workDir    : /home/dev/app\<newline>'' @
                  ''toolchain  : linux/amd64, go1.22.0, v0.1.0\<newline>'' @
                  ''\<newline>===== Fatal Error ======\<newline>'' @
                  ''\<newline>mkdir .otel-build: read-only file system''),
        demo_world (fresh_fs True) PUnset\<lparr>objects := mkdir_failed\<rparr>)"
proof -
  let ?hs = "demo_handlers succeeding succeeding"
  let ?e2 = "demo_env [''otel'', ''help'']"
  let ?wr = "demo_world (fresh_fs True) PUnset"
  have b: "2 \<le> length (Args ?e2)" by (simp add: demo_env_def)
  have m: "main ?e2 ?hs [] ?wr = report ?e2 [] (Plentiful 0) (?wr\<lparr>objects := mkdir_failed\<rparr>)"
    using main_unknown [OF b help_demo_unknown, of ?hs "[]" ?wr] help_demo_initEnv_fails [of ?hs]
    by simp
  have len: "0 < length mkdir_failed" by (simp add: mkdir_failed_def)
  have blk: "environment_block ?e2 =
     ''===== Environments =====\<newline>'' @
     ''command    : otel help\<newline>'' @
     ''errorLog   : .otel-build/debug.log\<newline>'' @
     ''workDir    : /home/dev/app\<newline>'' @
     ''toolchain  : linux/amd64, go1.22.0, v0.1.0\<newline>''"
    by (simp add: environment_block_def demo_env_def)
  have "report ?e2 [] (Plentiful 0) (?wr\<lparr>objects := mkdir_failed\<rparr>) =
       (LogFatal (''===== Environments =====\<newline>'' @
                  ''command    : otel help\<newline>'' @
                  ''errorLog   : .otel-build/debug.log\<newline>'' @
                  ''workDir    : /home/dev/app\<newline>'' @
                  ''toolchain  : linux/amd64, go1.22.0, v0.1.0\<newline>'' @
                  ''\<newline>===== Fatal Error ======\<newline>'' @
                  ''\<newline>mkdir .otel-build: read-only file system''),
        ?wr\<lparr>objects := mkdir_failed\<rparr>)"
    using fatal_Plentiful [OF len, of ?e2 "[]"]
    by (simp add: report_def blk range_lines_def) (simp add: mkdir_failed_def)
  with m help_demo_unknown show ?thesis by simp
qed

end
